theory Spec2Isabelle
  imports Complex_Main "HOL-Library.Log_Nat"
begin

section \<open>Values of the Python program\<close>

text \<open>
  The program (\<^verbatim>\<open>src/app.py\<close>) pages through a block-explorer API, turns every raw row
  into a reconciliation record and exports the records.  The embedding follows the
  source function by function.

  A Python \<^verbatim>\<open>str\<close> is modelled as a \<^typ>\<open>string\<close> whose characters are the code points
  below 256; a Python \<^verbatim>\<open>int\<close> is an \<^typ>\<open>int\<close>; a finite Python \<^verbatim>\<open>float\<close> is the
  rational number it denotes.  A parsed JSON document is a value of \<open>json\<close>; an object
  is the list of its items (\<^verbatim>\<open>dict.get\<close> is \<^const>\<open>map_of\<close>).
\<close>

datatype json =
    JNull
  | JBool bool
  | JInt int
  | JFloat rat
  | JStr string
  | JList "json list"
  | JObj "(string \<times> json) list"

text \<open>
  Exceptions are values.  Built-in exceptions are modelled by their class;
  \<open>EtherscanError\<close> carries its message.  \<open>TimestampError\<close> stands for the exception
  \<^verbatim>\<open>datetime.fromtimestamp\<close> raises on a timestamp outside the years 1 to 9999
  (\<^verbatim>\<open>ValueError\<close>, \<^verbatim>\<open>OverflowError\<close> or \<^verbatim>\<open>OSError\<close>, by magnitude).
\<close>

datatype error =
    EtherscanError string
  | ValueError
  | TypeError
  | AttributeError
  | OverflowError
  | ZeroDivisionError
  | TimestampError
  | KeyError
  | RequestException
  | JSONDecodeError

text \<open>Sequencing: the second computation runs unless the first one raised.\<close>

definition and_then :: "error + 'a \<Rightarrow> ('a \<Rightarrow> error + 'b) \<Rightarrow> error + 'b" where
  "and_then r f = (case r of Inl e \<Rightarrow> Inl e | Inr x \<Rightarrow> f x)"

subsection \<open>Truthiness, \<^verbatim>\<open>dict.get\<close>, \<^verbatim>\<open>or\<close>\<close>

fun py_truthy :: "json \<Rightarrow> bool" where
  "py_truthy JNull = False"
| "py_truthy (JBool b) = b"
| "py_truthy (JInt n) = (n \<noteq> 0)"
| "py_truthy (JFloat q) = (q \<noteq> 0)"
| "py_truthy (JStr s) = (s \<noteq> [])"
| "py_truthy (JList xs) = (xs \<noteq> [])"
| "py_truthy (JObj kvs) = (kvs \<noteq> [])"

definition py_or :: "json \<Rightarrow> json \<Rightarrow> json" where
  "py_or a b = (if py_truthy a then a else b)"

text \<open>\<^verbatim>\<open>x.get(key, default)\<close>: only a dict has the method.\<close>

fun py_get :: "json \<Rightarrow> string \<Rightarrow> json \<Rightarrow> error + json" where
  "py_get (JObj kvs) k d = Inr (case map_of kvs k of None \<Rightarrow> d | Some v \<Rightarrow> v)"
| "py_get _ k d = Inl AttributeError"

subsection \<open>\<^verbatim>\<open>str.lower\<close>, \<^verbatim>\<open>str.strip\<close>, \<^verbatim>\<open>str(int)\<close>\<close>

definition py_isspace :: "char \<Rightarrow> bool" where
  "py_isspace c =
     (let n = (of_char c :: nat)
      in (9 \<le> n \<and> n \<le> 13) \<or> (28 \<le> n \<and> n \<le> 32) \<or> n = 133 \<or> n = 160)"

definition py_strip :: "string \<Rightarrow> string" where
  "py_strip s = rev (dropWhile py_isspace (rev (dropWhile py_isspace s)))"

definition py_lower_char :: "char \<Rightarrow> char" where
  "py_lower_char c =
     (let n = (of_char c :: nat)
      in if (65 \<le> n \<and> n \<le> 90) \<or> (192 \<le> n \<and> n \<le> 222 \<and> n \<noteq> 215)
         then char_of (n + 32) else c)"

definition py_lower :: "string \<Rightarrow> string" where
  "py_lower s = map py_lower_char s"

fun str_nat :: "nat \<Rightarrow> string" where
  "str_nat n =
     (if n < 10 then [char_of (48 + n)]
      else str_nat (n div 10) @ [char_of (48 + n mod 10)])"

definition str_int :: "int \<Rightarrow> string" where
  "str_int i = (if i < 0 then CHR ''-'' # str_nat (nat (- i)) else str_nat (nat i))"

fun pad_left :: "nat \<Rightarrow> string \<Rightarrow> string" where
  "pad_left w s = replicate (w - length s) CHR ''0'' @ s"

subsection \<open>\<^verbatim>\<open>int(x)\<close>\<close>

definition is_digit :: "char \<Rightarrow> bool" where
  "is_digit c = (let n = (of_char c :: nat) in 48 \<le> n \<and> n \<le> 57)"

definition digit_val :: "char \<Rightarrow> int" where
  "digit_val c = int (of_char c) - 48"

text \<open>
  The digits after the first one: a single underscore may stand between two digits.
  The accumulator is the value read so far.
\<close>

fun py_digits :: "string \<Rightarrow> int \<Rightarrow> int option" where
  "py_digits [] acc = Some acc"
| "py_digits [c] acc = (if is_digit c then Some (10 * acc + digit_val c) else None)"
| "py_digits (c # d # ds) acc =
     (if is_digit c then py_digits (d # ds) (10 * acc + digit_val c)
      else if c = CHR ''_'' \<and> is_digit d then py_digits ds (10 * acc + digit_val d)
      else None)"

definition py_unsigned :: "string \<Rightarrow> int option" where
  "py_unsigned u =
     (case u of
        [] \<Rightarrow> None
      | c # cs \<Rightarrow> if is_digit c then py_digits cs (digit_val c) else None)"

text \<open>
  \<^verbatim>\<open>int(s)\<close> of a string, base 10: surrounding whitespace is dropped, one sign is
  allowed.  The whitespace \<^verbatim>\<open>int\<close> drops is narrower than that of \<^verbatim>\<open>str.strip\<close>: the
  separators \<^verbatim>\<open>0x1C\<close> to \<^verbatim>\<open>0x1F\<close> are not part of it.  The interpreter's limit on the
  number of digits of a literal is not modelled.
\<close>

definition int_isspace :: "char \<Rightarrow> bool" where
  "int_isspace c =
     (let n = (of_char c :: nat)
      in (9 \<le> n \<and> n \<le> 13) \<or> n = 32 \<or> n = 133 \<or> n = 160)"

definition int_strip :: "string \<Rightarrow> string" where
  "int_strip s = rev (dropWhile int_isspace (rev (dropWhile int_isspace s)))"

definition py_int_str :: "string \<Rightarrow> error + int" where
  "py_int_str s =
     (let t = int_strip s;
          neg = (t \<noteq> [] \<and> hd t = CHR ''-'');
          u = (if t \<noteq> [] \<and> (hd t = CHR ''-'' \<or> hd t = CHR ''+'') then tl t else t)
      in case py_unsigned u of
           None \<Rightarrow> Inl ValueError
         | Some n \<Rightarrow> Inr (if neg then - n else n))"

fun py_int :: "json \<Rightarrow> error + int" where
  "py_int (JStr s) = py_int_str s"
| "py_int (JInt n) = Inr n"
| "py_int (JBool b) = Inr (if b then 1 else 0)"
| "py_int (JFloat q) = Inr (if q < 0 then - \<lfloor>- q\<rfloor> else \<lfloor>q\<rfloor>)"
| "py_int JNull = Inl TypeError"
| "py_int (JList xs) = Inl TypeError"
| "py_int (JObj kvs) = Inl TypeError"

subsection \<open>True division of integers\<close>

text \<open>
  \<^verbatim>\<open>a / b\<close> on two Python ints is the double nearest to the quotient (ties to the even
  significand); it raises \<^verbatim>\<open>OverflowError\<close> when that is beyond the largest double.
\<close>

definition pow2 :: "int \<Rightarrow> rat" where
  "pow2 e = (if 0 \<le> e then 2 ^ nat e else 1 / 2 ^ nat (- e))"

definition round_half_even :: "rat \<Rightarrow> int" where
  "round_half_even x =
     (let f = \<lfloor>x\<rfloor>; d = x - of_int f
      in if d < 1 / 2 then f
         else if 1 / 2 < d then f + 1
         else if even f then f else f + 1)"

text \<open>The exponent of a positive rational: the \<open>e\<close> with \<open>2 ^ e \<le> x < 2 ^ (e + 1)\<close>.\<close>

definition ilog2 :: "rat \<Rightarrow> int" where
  "ilog2 x =
     (let (n, d) = quotient_of x; e = bitlen n - bitlen d
      in if pow2 e \<le> x then e else e - 1)"

definition round_double :: "rat \<Rightarrow> error + rat" where
  "round_double q =
     (if q = 0 then Inr 0
      else
        let a = \<bar>q\<bar>;
            e = max (ilog2 a) (- 1022);
            u = pow2 (e - 52);
            r = of_int (round_half_even (a / u)) * u
        in if pow2 1024 \<le> r then Inl OverflowError
           else Inr (if q < 0 then - r else r))"

definition truediv :: "int \<Rightarrow> int \<Rightarrow> error + rat" where
  "truediv a b =
     (if b = 0 then Inl ZeroDivisionError else round_double (of_int a / of_int b))"

subsection \<open>\<^verbatim>\<open>datetime.fromtimestamp(ts, tz=timezone.utc).isoformat()\<close>\<close>

text \<open>
  The library turns the seconds since the epoch into a proleptic Gregorian date and
  time of day, and raises when the year is not between 1 and 9999.  The date is
  computed from the day number by the usual era / day-of-era arithmetic.
\<close>

definition civil_from_days :: "int \<Rightarrow> int \<times> int \<times> int" where
  "civil_from_days days =
     (let z = days + 719468;
          era = z div 146097;
          doe = z - era * 146097;
          yoe = (doe - doe div 1460 + doe div 36524 - doe div 146096) div 365;
          doy = doe - (365 * yoe + yoe div 4 - yoe div 100);
          mp = (5 * doy + 2) div 153;
          d = doy - (153 * mp + 2) div 5 + 1;
          m = (if mp < 10 then mp + 3 else mp - 9);
          y = yoe + era * 400 + (if m \<le> 2 then 1 else 0)
      in (y, m, d))"

definition fmt :: "nat \<Rightarrow> int \<Rightarrow> string" where
  "fmt w i = pad_left w (str_int i)"

definition utc_isoformat :: "int \<Rightarrow> error + string" where
  "utc_isoformat ts =
     (if ts < - 62135596800 \<or> 253402300799 < ts then Inl TimestampError
      else
        let (y, m, d) = civil_from_days (ts div 86400);
            s = ts mod 86400
        in Inr (fmt 4 y @ ''-'' @ fmt 2 m @ ''-'' @ fmt 2 d @ ''T'' @
                fmt 2 (s div 3600) @ '':'' @ fmt 2 (s mod 3600 div 60) @ '':'' @
                fmt 2 (s mod 60) @ ''+00:00''))"

section \<open>The record normalizer: \<^verbatim>\<open>_transform_and_filter\<close>\<close>

text \<open>
  The dict the generator yields, with the source's keys \<^verbatim>\<open>from\<close>, \<^verbatim>\<open>to\<close>,
  \<^verbatim>\<open>amount_usdt\<close>, \<^verbatim>\<open>tx_hash\<close>, \<^verbatim>\<open>timestamp\<close>, \<^verbatim>\<open>fee_eth\<close> in this order.
\<close>

record transfer =
  rec_from :: json
  rec_to :: json
  amount_usdt :: rat
  tx_hash :: json
  timestamp :: string
  fee_eth :: rat

definition USDT_DECIMALS :: nat where
  "USDT_DECIMALS = 6"

text \<open>
  The body of the loop over the items, statement by statement.  \<open>Inr None\<close> is the
  \<^verbatim>\<open>continue\<close> of a filtered item, \<open>Inr (Some r)\<close> the yielded record, \<open>Inl e\<close> an
  exception.
\<close>

definition transform_item :: "json \<Rightarrow> rat option \<Rightarrow> error + transfer option" where
  "transform_item item min_value =
     and_then (py_get item ''value'' (JStr ''0'')) (\<lambda>raw_value.
     and_then (py_int raw_value) (\<lambda>v.
     and_then (truediv v (10 ^ USDT_DECIMALS)) (\<lambda>amount.
     if min_value \<noteq> None \<and> amount < the min_value then Inr None
     else
     and_then (py_get item ''gasPrice'' (JStr ''0'')) (\<lambda>raw_price.
     and_then (py_int raw_price) (\<lambda>gas_price.
     and_then (py_get item ''gasUsed'' (JStr ''0'')) (\<lambda>raw_used.
     and_then (py_int raw_used) (\<lambda>gas_used.
     and_then (truediv (gas_price * gas_used) (10 ^ 18)) (\<lambda>fee_eth.
     and_then (py_get item ''timeStamp'' (JStr ''0'')) (\<lambda>raw_ts.
     and_then (py_int raw_ts) (\<lambda>ts.
     and_then (py_get item ''from'' JNull) (\<lambda>f.
     and_then (py_get item ''to'' JNull) (\<lambda>t.
     and_then (py_get item ''hash'' JNull) (\<lambda>h.
     and_then (utc_isoformat ts) (\<lambda>iso.
     Inr (Some \<lparr>rec_from = f, rec_to = t, amount_usdt = amount,
                tx_hash = h, timestamp = iso, fee_eth = fee_eth\<rparr>)))))))))))))))"

text \<open>
  The generator, consumed by \<^verbatim>\<open>list(...)\<close>: the records of the items in order; the first
  exception ends it.
\<close>

fun transform_and_filter :: "json list \<Rightarrow> rat option \<Rightarrow> error + transfer list" where
  "transform_and_filter [] min_value = Inr []"
| "transform_and_filter (item # items) min_value =
     and_then (transform_item item min_value) (\<lambda>r.
     and_then (transform_and_filter items min_value) (\<lambda>rs.
     Inr (case r of None \<Rightarrow> rs | Some x \<Rightarrow> x # rs)))"

section \<open>The transfer fetcher: \<^verbatim>\<open>fetch_usdt_transfers\<close>\<close>

definition BASE_URL :: string where
  "BASE_URL = ''https://api.etherscan.io/v2/api''"

definition USDT_CONTRACT :: string where
  "USDT_CONTRACT = ''0xdac17f958d2ee523a2206206994597c13d831ec7''"

definition DEFAULT_PAGE_SIZE :: int where
  "DEFAULT_PAGE_SIZE = 100"

definition DEFAULT_MAX_PAGES :: int where
  "DEFAULT_MAX_PAGES = 5"

definition DEFAULT_CHAIN_ID :: int where
  "DEFAULT_CHAIN_ID = 1"

text \<open>The arguments of the function, and the query parameters of one request.\<close>

record fetch_args =
  api_key :: string
  chain_id :: int
  start_block :: int
  end_block :: int
  page_size :: int
  max_pages :: int
  min_value :: "rat option"
  sort_order :: string
  sleep_secs :: rat

record request =
  q_url :: string
  q_module :: string
  q_action :: string
  q_contractaddress :: string
  q_chainid :: int
  q_page :: int
  q_offset :: int
  q_startblock :: int
  q_endblock :: int
  q_sort :: string
  q_apikey :: string

definition params :: "fetch_args \<Rightarrow> int \<Rightarrow> request" where
  "params a page =
     \<lparr>q_url = BASE_URL, q_module = ''account'', q_action = ''tokentx'',
      q_contractaddress = USDT_CONTRACT, q_chainid = chain_id a, q_page = page,
      q_offset = page_size a, q_startblock = start_block a, q_endblock = end_block a,
      q_sort = sort_order a, q_apikey = api_key a\<rparr>"

text \<open>
  What \<^verbatim>\<open>requests.get\<close> gives back: the status code, the body as text, and the body
  parsed by \<^verbatim>\<open>resp.json()\<close> (\<open>None\<close> when parsing raises).  The network is a function
  from the request to the response, \<open>None\<close> when the call itself raises (a timeout, a
  refused connection).  One run asks for each page once, so a function describes every
  sequence of responses.
\<close>

record response =
  status_code :: int
  resp_text :: string
  resp_json :: "json option"

type_synonym network = "request \<Rightarrow> response option"

text \<open>
  The effects of a run, in order: the HTTP calls and the sleeps.  The delay
  \<^verbatim>\<open>sleep_secs\<close> is taken to be one \<^verbatim>\<open>time.sleep\<close> accepts, that is not negative.
\<close>

datatype event = HttpGet request | Sleep rat

text \<open>\<^verbatim>\<open>status in ("1", 1, True)\<close>: membership compares with \<^verbatim>\<open>==\<close>.\<close>

definition status_ok :: "json \<Rightarrow> bool" where
  "status_ok status =
     (status = JStr ''1'' \<or> status = JInt 1 \<or> status = JBool True \<or> status = JFloat 1)"

text \<open>\<^verbatim>\<open>message.lower().strip()\<close>: only a string has the methods.\<close>

fun lower_strip :: "json \<Rightarrow> error + string" where
  "lower_strip (JStr s) = Inr (py_strip (py_lower s))"
| "lower_strip _ = Inl AttributeError"

fun py_str :: "json \<Rightarrow> string" where
  "py_str (JStr s) = s"
| "py_str _ = []"

text \<open>Iterating a value and taking its length.\<close>

fun py_iter :: "json \<Rightarrow> error + json list" where
  "py_iter (JList xs) = Inr xs"
| "py_iter (JStr s) = Inr (map (\<lambda>c. JStr [c]) s)"
| "py_iter (JObj kvs) = Inr (map (\<lambda>kv. JStr (fst kv)) kvs)"
| "py_iter _ = Inl TypeError"

fun py_len :: "json \<Rightarrow> error + int" where
  "py_len (JList xs) = Inr (int (length xs))"
| "py_len (JStr s) = Inr (int (length s))"
| "py_len (JObj kvs) = Inr (int (length kvs))"
| "py_len _ = Inl TypeError"

text \<open>
  One pass through the body of the loop, after the request: it raises, leaves the loop
  (\<^verbatim>\<open>break\<close>) or goes on to the sleep, each with the records accumulated so far.
\<close>

datatype page_step = Raise error | Break "transfer list" | Continue "transfer list"

definition on_error :: "error + 'a \<Rightarrow> ('a \<Rightarrow> page_step) \<Rightarrow> page_step" where
  "on_error r f = (case r of Inl e \<Rightarrow> Raise e | Inr x \<Rightarrow> f x)"

definition fetch_page :: "fetch_args \<Rightarrow> response option \<Rightarrow> transfer list \<Rightarrow> page_step" where
  "fetch_page a got records =
     (case got of
        None \<Rightarrow> Raise RequestException
      | Some resp \<Rightarrow>
          if status_code resp \<noteq> 200
          then Raise (EtherscanError
                 (''Etherscan status '' @ str_int (status_code resp) @ '': '' @ resp_text resp))
          else
            (case resp_json resp of
               None \<Rightarrow> Raise JSONDecodeError
             | Some payload \<Rightarrow>
                 on_error (py_get payload ''status'' JNull) (\<lambda>status.
                 if \<not> status_ok status
                 then
                   on_error (py_get payload ''message'' JNull) (\<lambda>m.
                   let message = py_or m (JStr ''unknown error'') in
                   on_error (lower_strip message) (\<lambda>t.
                   if t = ''no records found'' then Break records
                   else Raise (EtherscanError (''Etherscan error: '' @ py_str message))))
                 else
                   on_error (py_get payload ''result'' JNull) (\<lambda>res.
                   let page_result = py_or res (JList []) in
                   if \<not> py_truthy page_result then Break records
                   else
                     on_error (py_iter page_result) (\<lambda>items.
                     on_error (transform_and_filter items (min_value a)) (\<lambda>filtered.
                     on_error (py_len page_result) (\<lambda>n.
                     if n < page_size a then Break (records @ filtered)
                     else Continue (records @ filtered))))))))"

text \<open>
  The loop \<^verbatim>\<open>for page in range(1, max_pages + 1)\<close> over the pages still to come.  The
  result is what the function returns or raises, with the effects in order.
\<close>

fun fetch_pages ::
  "network \<Rightarrow> fetch_args \<Rightarrow> int list \<Rightarrow> transfer list \<Rightarrow> (error + transfer list) \<times> event list"
where
  "fetch_pages http a [] records = (Inr records, [])"
| "fetch_pages http a (page # pages) records =
     (case fetch_page a (http (params a page)) records of
        Raise e \<Rightarrow> (Inl e, [HttpGet (params a page)])
      | Break rs \<Rightarrow> (Inr rs, [HttpGet (params a page)])
      | Continue rs \<Rightarrow>
          (let (res, tr) = fetch_pages http a pages rs
           in (res, HttpGet (params a page) # Sleep (sleep_secs a) # tr)))"

text \<open>
  The body of the function; the cache the decorator puts in front of it is not part of
  the model, which describes a call that reaches the body.
\<close>

definition fetch_usdt_transfers :: "network \<Rightarrow> fetch_args \<Rightarrow> (error + transfer list) \<times> event list" where
  "fetch_usdt_transfers http a = fetch_pages http a [1..max_pages a] []"

text \<open>The page numbers of the HTTP calls of a run, and the number of its sleeps.\<close>

definition http_calls :: "event list \<Rightarrow> int list" where
  "http_calls tr = concat (map (\<lambda>ev. case ev of HttpGet rq \<Rightarrow> [q_page rq] | Sleep d \<Rightarrow> []) tr)"

definition sleeps :: "event list \<Rightarrow> nat" where
  "sleeps tr = length (filter (\<lambda>ev. case ev of HttpGet rq \<Rightarrow> False | Sleep d \<Rightarrow> True) tr)"

section \<open>The config resolver: \<^verbatim>\<open>get_chain_id\<close>\<close>

text \<open>
  The secrets store is the list of its entries, \<open>None\<close> when reading it raises (no
  secrets file); the environment is a partial function on the variable names.

  The \<^verbatim>\<open>try\<close> block: \<open>Some n\<close> when it returns \<open>n\<close>; \<open>None\<close> when control leaves it
  without returning, because the value is missing or falsy or because an exception
  was raised, which the bare \<^verbatim>\<open>except\<close> swallows.
\<close>

type_synonym secrets = "(string \<times> json) list option"

type_synonym environ = "string \<Rightarrow> string option"

definition secrets_chain_id :: "secrets \<Rightarrow> int option" where
  "secrets_chain_id store =
     (case store of
        None \<Rightarrow> None
      | Some kvs \<Rightarrow>
          (case py_get (JObj kvs) ''ETHERSCAN_CHAIN_ID'' JNull of
             Inl e \<Rightarrow> None
           | Inr secret_id \<Rightarrow>
               if py_truthy secret_id
               then (case py_int secret_id of Inl e \<Rightarrow> None | Inr n \<Rightarrow> Some n)
               else None))"

definition get_chain_id :: "secrets \<Rightarrow> environ \<Rightarrow> error + int" where
  "get_chain_id store getenv =
     (case secrets_chain_id store of
        Some n \<Rightarrow> Inr n
      | None \<Rightarrow>
          (case getenv ''ETHERSCAN_CHAIN_ID'' of
             None \<Rightarrow> Inr DEFAULT_CHAIN_ID
           | Some env_val \<Rightarrow>
               if env_val = [] then Inr DEFAULT_CHAIN_ID
               else
                 (case py_int_str env_val of
                    Inr n \<Rightarrow> Inr n
                  | Inl e \<Rightarrow>
                      if e = ValueError
                      then Inl (EtherscanError ''ETHERSCAN_CHAIN_ID must be an integer.'')
                      else Inl e)))"

section \<open>The report exporter: \<^verbatim>\<open>generate_excel_report\<close>\<close>

text \<open>
  A column label is the list of the code points of the source's literal.  A data frame
  is its column labels and its rows of cells.  The spreadsheet library turns a
  workbook into bytes; that step is a parameter of the model.
\<close>

type_synonym label = "nat list"

definition ascii :: "string \<Rightarrow> label" where
  "ascii s = map of_char s"

datatype cell = CJson json | CNum rat | CText string

record dataframe =
  columns :: "label list"
  df_rows :: "cell list list"

record sheet =
  sheet_name :: string
  header :: "label list"
  body :: "cell list list"

definition DataFrame :: "transfer list \<Rightarrow> dataframe" where
  "DataFrame records =
     \<lparr>columns = map ascii [''from'', ''to'', ''amount_usdt'', ''tx_hash'', ''timestamp'', ''fee_eth''],
      df_rows = map (\<lambda>r. [CJson (rec_from r), CJson (rec_to r), CNum (amount_usdt r),
                          CJson (tx_hash r), CText (timestamp r), CNum (fee_eth r)]) records\<rparr>"

definition label_time :: label where
  "label_time = [20132, 26131, 26102, 38388]"

definition label_from :: label where
  "label_from = [20184, 27454, 26041] @ ascii '' (From)''"

definition label_to :: label where
  "label_to = [25910, 27454, 26041] @ ascii '' (To)''"

definition label_amount :: label where
  "label_amount = [37329, 39069] @ ascii '' (USDT)''"

definition label_fee :: label where
  "label_fee = [25163, 32493, 36153] @ ascii '' (ETH)''"

definition label_hash :: label where
  "label_hash = [20132, 26131, 21704, 24076] @ ascii '' (TxHash)''"

definition rename :: "(label \<times> label) list \<Rightarrow> dataframe \<Rightarrow> dataframe" where
  "rename m df =
     df\<lparr>columns := map (\<lambda>c. case map_of m c of None \<Rightarrow> c | Some c' \<Rightarrow> c') (columns df)\<rparr>"

text \<open>Selecting a list of columns of a data frame: the named columns in the order asked for; a missing one is a \<^verbatim>\<open>KeyError\<close>.\<close>

definition select_columns :: "label list \<Rightarrow> dataframe \<Rightarrow> error + dataframe" where
  "select_columns wanted df =
     (if \<not> list_all (\<lambda>w. w \<in> set (columns df)) wanted then Inl KeyError
      else Inr \<lparr>columns = wanted,
                df_rows = map (\<lambda>row. map (\<lambda>w. case map_of (zip (columns df) row) w of
                                                  None \<Rightarrow> CJson JNull | Some c \<Rightarrow> c) wanted)
                              (df_rows df)\<rparr>)"

definition generate_excel_report :: "(sheet list \<Rightarrow> 'b) \<Rightarrow> transfer list \<Rightarrow> error + 'b" where
  "generate_excel_report to_bytes records =
     (if records = [] then Inl ValueError
      else
        let df = rename [(ascii ''from'', label_from), (ascii ''to'', label_to),
                         (ascii ''amount_usdt'', label_amount), (ascii ''tx_hash'', label_hash),
                         (ascii ''timestamp'', label_time), (ascii ''fee_eth'', label_fee)]
                   (DataFrame records)
        in and_then
             (select_columns
                [label_time, label_from, label_to, label_amount, label_fee, label_hash] df)
             (\<lambda>df. Inr (to_bytes
                [\<lparr>sheet_name = ''USDT_Transfers'', header = columns df, body = df_rows df\<rparr>])))"

section \<open>Vocabulary of the properties\<close>

text \<open>\<^verbatim>\<open>int(item.get(k, "0"))\<close>, as the normalizer reads its four numeric fields.\<close>

definition int_field :: "json \<Rightarrow> string \<Rightarrow> error + int" where
  "int_field item k = and_then (py_get item k (JStr ''0'')) py_int"

text \<open>
  The JSON envelope of a response: the items of the parsed object of a response with
  status 200.  \<open>field\<close> is \<^verbatim>\<open>payload.get(k)\<close>.
\<close>

definition field :: "(string \<times> json) list \<Rightarrow> string \<Rightarrow> json" where
  "field kvs k = (case map_of kvs k of None \<Rightarrow> JNull | Some v \<Rightarrow> v)"

definition envelope :: "response \<Rightarrow> (string \<times> json) list option" where
  "envelope resp =
     (if status_code resp = 200
      then (case resp_json resp of Some (JObj kvs) \<Rightarrow> Some kvs | _ \<Rightarrow> None)
      else None)"

text \<open>
  The message of an envelope: the string in its \<^verbatim>\<open>message\<close> field, \<^verbatim>\<open>unknown error\<close> when
  the field is missing, null or empty.
\<close>

definition message_text :: "(string \<times> json) list \<Rightarrow> string option" where
  "message_text kvs =
     (case py_or (field kvs ''message'') (JStr ''unknown error'') of
        JStr s \<Rightarrow> Some s
      | _ \<Rightarrow> None)"

text \<open>The message equals \<^verbatim>\<open>no records found\<close>, in any case, surrounding whitespace ignored.\<close>

definition says_no_records :: "response \<Rightarrow> bool" where
  "says_no_records resp =
     (case envelope resp of
        None \<Rightarrow> False
      | Some kvs \<Rightarrow>
          (case message_text kvs of
             None \<Rightarrow> False
           | Some s \<Rightarrow> py_strip (py_lower s) = ''no records found''))"

definition success_status :: "response \<Rightarrow> bool" where
  "success_status resp =
     (case envelope resp of None \<Rightarrow> False | Some kvs \<Rightarrow> status_ok (field kvs ''status''))"

text \<open>
  The stop conditions of the paging: the end-of-data message on a page without a
  success status, an empty result, a result shorter than the page size.
\<close>

definition no_records_page :: "response \<Rightarrow> bool" where
  "no_records_page resp = (envelope resp \<noteq> None \<and> \<not> success_status resp \<and> says_no_records resp)"

definition empty_page :: "response \<Rightarrow> bool" where
  "empty_page resp =
     (case envelope resp of
        None \<Rightarrow> False
      | Some kvs \<Rightarrow> status_ok (field kvs ''status'') \<and> \<not> py_truthy (field kvs ''result''))"

definition short_page :: "fetch_args \<Rightarrow> response \<Rightarrow> bool" where
  "short_page a resp =
     (case envelope resp of
        None \<Rightarrow> False
      | Some kvs \<Rightarrow>
          status_ok (field kvs ''status'') \<and>
          (case field kvs ''result'' of
             JList items \<Rightarrow> int (length items) < page_size a
           | _ \<Rightarrow> False))"

definition stop_page :: "fetch_args \<Rightarrow> response option \<Rightarrow> bool" where
  "stop_page a got =
     (case got of
        None \<Rightarrow> False
      | Some resp \<Rightarrow> no_records_page resp \<or> empty_page resp \<or> short_page a resp)"

text \<open>
  A successful page response: the body of the loop does not raise on it.  A full page:
  the body reaches the sleep.  Neither depends on the records accumulated so far.
\<close>

definition successful :: "fetch_args \<Rightarrow> response option \<Rightarrow> bool" where
  "successful a got = (case fetch_page a got [] of Raise e \<Rightarrow> False | _ \<Rightarrow> True)"

definition full_page :: "fetch_args \<Rightarrow> response option \<Rightarrow> bool" where
  "full_page a got = (case fetch_page a got [] of Continue rs \<Rightarrow> True | _ \<Rightarrow> False)"

text \<open>
  The two failures that are reported as an \<open>EtherscanError\<close>, with the message of the
  error: a status other than 200, and an envelope without a success status whose
  message is not the end-of-data message.
\<close>

definition http_failure :: "response \<Rightarrow> string \<Rightarrow> bool" where
  "http_failure resp m =
     (status_code resp \<noteq> 200 \<and>
      m = ''Etherscan status '' @ str_int (status_code resp) @ '': '' @ resp_text resp)"

definition api_failure :: "response \<Rightarrow> string \<Rightarrow> bool" where
  "api_failure resp m =
     (case envelope resp of
        None \<Rightarrow> False
      | Some kvs \<Rightarrow>
          \<not> status_ok (field kvs ''status'') \<and>
          (case message_text kvs of
             None \<Rightarrow> False
           | Some s \<Rightarrow> py_strip (py_lower s) \<noteq> ''no records found'' \<and>
                       m = ''Etherscan error: '' @ s))"

text \<open>The events of one page of a run: the request, and the sleep after a full page.\<close>

definition page_events :: "network \<Rightarrow> fetch_args \<Rightarrow> int \<Rightarrow> event list" where
  "page_events http a p =
     HttpGet (params a p) #
       (if full_page a (http (params a p)) then [Sleep (sleep_secs a)] else [])"

text \<open>The secrets store holds a value for the chain id that \<^verbatim>\<open>int\<close> rejects.\<close>

definition bad_secret :: "secrets \<Rightarrow> bool" where
  "bad_secret store =
     (case store of
        None \<Rightarrow> False
      | Some kvs \<Rightarrow>
          (case map_of kvs ''ETHERSCAN_CHAIN_ID'' of
             None \<Rightarrow> False
           | Some x \<Rightarrow> (case py_int x of Inl e \<Rightarrow> True | Inr n \<Rightarrow> False)))"

text \<open>The row of the sheet the exporter writes for a record.\<close>

definition sheet_row :: "transfer \<Rightarrow> cell list" where
  "sheet_row r =
     [CText (timestamp r), CJson (rec_from r), CJson (rec_to r), CNum (amount_usdt r),
      CNum (fee_eth r), CJson (tx_hash r)]"

section \<open>Sample data\<close>

text \<open>
  The arguments with the defaults of the signature (\<^verbatim>\<open>sleep_secs\<close> is the double
  \<^verbatim>\<open>0.2\<close>), raw rows, responses, and a network that answers page \<open>n\<close> with the \<open>n\<close>-th
  response of a list and fails to connect beyond it.  The text of a JSON body is left
  empty in the samples: the function reads the text of a response only when its
  status is not 200.
\<close>

definition default_args :: "string \<Rightarrow> int \<Rightarrow> fetch_args" where
  "default_args key cid =
     \<lparr>api_key = key, chain_id = cid, start_block = 0, end_block = 99999999,
      page_size = DEFAULT_PAGE_SIZE, max_pages = DEFAULT_MAX_PAGES, min_value = None,
      sort_order = ''desc'', sleep_secs = 3602879701896397 / 18014398509481984\<rparr>"

definition sample_args :: "int \<Rightarrow> int \<Rightarrow> rat option \<Rightarrow> fetch_args" where
  "sample_args psize pages mv =
     (default_args ''KEY'' 1)\<lparr>page_size := psize, max_pages := pages, min_value := mv\<rparr>"

definition sample_item :: json where
  "sample_item =
     JObj [(''from'', JStr ''0xaa''), (''to'', JStr ''0xbb''), (''value'', JStr ''1500000''),
           (''hash'', JStr ''0xcc''), (''timeStamp'', JStr ''1700000000''),
           (''gasPrice'', JStr ''20000000000''), (''gasUsed'', JStr ''21000'')]"

definition sample_record :: transfer where
  "sample_record =
     \<lparr>rec_from = JStr ''0xaa'', rec_to = JStr ''0xbb'', amount_usdt = 3 / 2,
      tx_hash = JStr ''0xcc'', timestamp = ''2023-11-14T22:13:20+00:00'',
      fee_eth = 1936908127739503 / 4611686018427387904\<rparr>"

definition dust_item :: json where
  "dust_item = JObj [(''value'', JStr ''500000''), (''gasPrice'', JStr ''unknown'')]"

definition far_future_item :: json where
  "far_future_item = JObj [(''value'', JStr ''1''), (''timeStamp'', JStr ''253402300800'')]"

fun serve_from :: "int \<Rightarrow> response list \<Rightarrow> int \<Rightarrow> response option" where
  "serve_from n [] p = None"
| "serve_from n (r # rs) p = (if p = n then Some r else serve_from (n + 1) rs p)"

definition serve :: "response list \<Rightarrow> network" where
  "serve rs rq = serve_from 1 rs (q_page rq)"

definition json_response :: "(string \<times> json) list \<Rightarrow> response" where
  "json_response kvs = \<lparr>status_code = 200, resp_text = [], resp_json = Some (JObj kvs)\<rparr>"

definition ok_page :: "json list \<Rightarrow> response" where
  "ok_page items =
     json_response [(''status'', JStr ''1''), (''message'', JStr ''OK''), (''result'', JList items)]"

definition flagged_page :: response where
  "flagged_page =
     json_response [(''status'', JStr ''1''), (''message'', JStr ''No records found''),
                    (''result'', JList [sample_item])]"

definition no_records_response :: response where
  "no_records_response =
     json_response [(''status'', JStr ''0''), (''message'', JStr ''No records found'')]"

definition rate_limited :: response where
  "rate_limited =
     json_response [(''status'', JStr ''0''), (''message'', JStr ''NOTOK''),
                    (''result'', JStr ''Max rate limit reached'')]"

definition numeric_message :: response where
  "numeric_message = json_response [(''status'', JStr ''0''), (''message'', JInt 5)]"

definition bad_gateway :: response where
  "bad_gateway = \<lparr>status_code = 502, resp_text = ''Bad Gateway'', resp_json = None\<rparr>"

definition env_with :: "string \<Rightarrow> environ" where
  "env_with v k = (if k = ''ETHERSCAN_CHAIN_ID'' then Some v else None)"

definition no_env :: environ where
  "no_env k = None"

definition named_secret :: secrets where
  "named_secret = Some [(''ETHERSCAN_CHAIN_ID'', JStr ''mainnet'')]"

section \<open>Lemmas about the model\<close>

subsection \<open>Sequencing and the normalizer\<close>

lemma and_then_Inr: "and_then r f = Inr y \<Longrightarrow> \<exists>x. r = Inr x \<and> f x = Inr y"
  by (cases r) (simp_all add: and_then_def)

lemma and_then_Inl: "and_then r f = Inl e \<Longrightarrow> r = Inl e \<or> (\<exists>x. r = Inr x \<and> f x = Inl e)"
  by (cases r) (simp_all add: and_then_def)

lemma and_then_simps [simp]: "and_then (Inl e) f = Inl e" "and_then (Inr x) f = f x"
  by (simp_all add: and_then_def)

lemma transform_item_Some:
  assumes "transform_item item mv = Inr (Some r)"
  shows "\<exists>v gp gu ts. int_field item ''value'' = Inr v \<and> int_field item ''gasPrice'' = Inr gp
     \<and> int_field item ''gasUsed'' = Inr gu \<and> int_field item ''timeStamp'' = Inr ts
     \<and> truediv v (10 ^ 6) = Inr (amount_usdt r) \<and> truediv (gp * gu) (10 ^ 18) = Inr (fee_eth r)
     \<and> utc_isoformat ts = Inr (timestamp r)
     \<and> \<not> (mv \<noteq> None \<and> amount_usdt r < the mv)"
  using assms unfolding transform_item_def int_field_def USDT_DECIMALS_def
  by (auto dest!: and_then_Inr split: if_splits)

subsection \<open>The body of the loop\<close>

lemma on_error_simps [simp]: "on_error (Inl e) f = Raise e" "on_error (Inr x) f = f x"
  by (simp_all add: on_error_def)

lemma no_records_page_alt:
  "no_records_page resp =
     (case envelope resp of
        None \<Rightarrow> False
      | Some kvs \<Rightarrow>
          \<not> status_ok (field kvs ''status'') \<and>
          (case message_text kvs of
             None \<Rightarrow> False
           | Some s \<Rightarrow> py_strip (py_lower s) = ''no records found''))"
  by (auto simp: no_records_page_def success_status_def says_no_records_def split: option.splits)

lemma py_get_field: "py_get (JObj kvs) k JNull = Inr (field kvs k)"
  by (simp add: field_def)

lemma envelope_Some:
  "envelope resp = Some kvs \<longleftrightarrow> status_code resp = 200 \<and> resp_json resp = Some (JObj kvs)"
  by (auto simp: envelope_def split: option.splits json.splits)

text \<open>The body of the loop on a JSON object with status 200.\<close>

lemma fetch_page_envelope:
  assumes "envelope resp = Some kvs"
  shows "fetch_page a (Some resp) records =
     (if \<not> status_ok (field kvs ''status'')
      then on_error (lower_strip (py_or (field kvs ''message'') (JStr ''unknown error''))) (\<lambda>t.
             if t = ''no records found'' then Break records
             else Raise (EtherscanError (''Etherscan error: '' @
                    py_str (py_or (field kvs ''message'') (JStr ''unknown error'')))))
      else if \<not> py_truthy (field kvs ''result'') then Break records
      else on_error (py_iter (field kvs ''result'')) (\<lambda>items.
           on_error (transform_and_filter items (min_value a)) (\<lambda>filtered.
           on_error (py_len (field kvs ''result'')) (\<lambda>n.
           if n < page_size a then Break (records @ filtered)
           else Continue (records @ filtered)))))"
proof -
  from assms have "status_code resp = 200" "resp_json resp = Some (JObj kvs)"
    by (simp_all add: envelope_Some)
  moreover have "py_truthy (py_or (field kvs ''result'') (JList [])) = py_truthy (field kvs ''result'')"
    by (simp add: py_or_def)
  moreover have "py_truthy (field kvs ''result'') \<Longrightarrow> py_or (field kvs ''result'') (JList []) = field kvs ''result''"
    by (simp add: py_or_def)
  ultimately show ?thesis
    by (simp add: fetch_page_def py_get_field Let_def del: py_get.simps)
qed

lemma fetch_page_no_envelope:
  assumes "envelope resp = None"
  shows "\<exists>e. fetch_page a (Some resp) records = Raise e"
  using assms
  by (auto simp: envelope_def fetch_page_def split: if_splits option.splits json.splits)

lemma fetch_page_acc:
  "fetch_page a got records =
     (case fetch_page a got [] of
        Raise e \<Rightarrow> Raise e
      | Break rs \<Rightarrow> Break (records @ rs)
      | Continue rs \<Rightarrow> Continue (records @ rs))"
proof (cases got)
  case None
  then show ?thesis by (simp add: fetch_page_def)
next
  case (Some resp)
  show ?thesis
  proof (cases "envelope resp")
    case None
    with Some show ?thesis
      by (auto simp: envelope_def fetch_page_def split: if_splits option.splits json.splits)
  next
    case (Some kvs)
    with \<open>got = Some resp\<close> show ?thesis
      by (simp add: fetch_page_envelope on_error_def split: sum.splits)
  qed
qed

lemma transform_item_not_dict:
  "\<forall>kvs. item \<noteq> JObj kvs \<Longrightarrow> transform_item item mv = Inl AttributeError"
  by (cases item) (simp_all add: transform_item_def)

lemma transform_and_filter_not_dict:
  "\<forall>kvs. item \<noteq> JObj kvs \<Longrightarrow> transform_and_filter (item # items) mv = Inl AttributeError"
  by (simp add: transform_item_not_dict)

lemma iterate_not_list:
  assumes "py_truthy res" "\<And>items. res \<noteq> JList items"
  shows "\<exists>e. on_error (py_iter res) (\<lambda>items. on_error (transform_and_filter items mv) g) = Raise e"
proof (cases res)
  case (JStr s)
  with assms(1) obtain c cs where "s = c # cs" by (cases s) auto
  with JStr show ?thesis by (simp add: transform_and_filter_not_dict del: transform_and_filter.simps)
next
  case (JObj kvs)
  with assms(1) obtain kv rest where "kvs = kv # rest" by (cases kvs) auto
  with JObj show ?thesis by (simp add: transform_and_filter_not_dict del: transform_and_filter.simps)
qed (use assms in simp_all)

lemma successful_break_iff:
  assumes "successful a got"
  shows "(\<exists>rs. fetch_page a got [] = Break rs) \<longleftrightarrow> stop_page a got"
proof (cases got)
  case None
  then show ?thesis by (simp add: fetch_page_def stop_page_def)
next
  case (Some resp)
  show ?thesis
  proof (cases "envelope resp")
    case None
    with Some fetch_page_no_envelope[OF None, of a "[]"] assms show ?thesis
      by (auto simp: successful_def stop_page_def no_records_page_alt empty_page_def short_page_def)
  next
    case E: (Some kvs)
    show ?thesis
    proof (cases "status_ok (field kvs ''status'')")
      case False
      with Some E assms show ?thesis
        unfolding successful_def stop_page_def no_records_page_alt empty_page_def short_page_def
          message_text_def
        by (auto simp: fetch_page_envelope on_error_def split: sum.splits json.splits if_splits)
    next
      case ok: True
      show ?thesis
      proof (cases "py_truthy (field kvs ''result'')")
        case False
        with ok Some E show ?thesis
          by (simp add: fetch_page_envelope stop_page_def empty_page_def)
      next
        case truthy: True
        show ?thesis
        proof (cases "\<exists>items. field kvs ''result'' = JList items")
          case False
          then have "\<And>items. field kvs ''result'' \<noteq> JList items" by blast
          from iterate_not_list[OF truthy this] ok truthy E
          have "\<exists>e. fetch_page a (Some resp) [] = Raise e"
            by (simp add: fetch_page_envelope)
          with Some assms show ?thesis
            by (auto simp: successful_def)
        next
          case True
          then obtain items where "field kvs ''result'' = JList items" ..
          with ok truthy Some E assms show ?thesis
            unfolding successful_def stop_page_def no_records_page_alt empty_page_def short_page_def
            by (auto simp: fetch_page_envelope on_error_def split: sum.splits if_splits)
        qed
      qed
    qed
  qed
qed

subsection \<open>The loop\<close>

lemma q_page_params [simp]: "q_page (params a p) = p"
  by (simp add: params_def)

lemma http_calls_simps [simp]:
  "http_calls [] = []"
  "http_calls (HttpGet rq # tr) = q_page rq # http_calls tr"
  "http_calls (Sleep d # tr) = http_calls tr"
  by (simp_all add: http_calls_def)

text \<open>One step of the loop, by what the body does on the empty accumulator.\<close>

lemma fetch_pages_Raise:
  "fetch_page a (http (params a p)) [] = Raise e \<Longrightarrow>
   fetch_pages http a (p # ps) rs = (Inl e, [HttpGet (params a p)])"
  by (simp add: fetch_page_acc[of a _ rs])

lemma fetch_pages_Break:
  "fetch_page a (http (params a p)) [] = Break xs \<Longrightarrow>
   fetch_pages http a (p # ps) rs = (Inr (rs @ xs), [HttpGet (params a p)])"
  by (simp add: fetch_page_acc[of a _ rs])

lemma fetch_pages_Continue:
  "fetch_page a (http (params a p)) [] = Continue xs \<Longrightarrow>
   fetch_pages http a (p # ps) rs =
     (fst (fetch_pages http a ps (rs @ xs)),
      HttpGet (params a p) # Sleep (sleep_secs a) # snd (fetch_pages http a ps (rs @ xs)))"
  by (simp add: fetch_page_acc[of a _ rs] split: prod.splits)

lemma trace_page_events:
  "snd (fetch_pages http a ps rs) =
     concat (map (page_events http a) (http_calls (snd (fetch_pages http a ps rs))))"
proof (induction ps arbitrary: rs)
  case Nil
  show ?case by simp
next
  case (Cons p ps)
  show ?case
  proof (cases "fetch_page a (http (params a p)) []")
    case (Raise e)
    then show ?thesis
      by (simp add: fetch_pages_Raise page_events_def full_page_def del: fetch_pages.simps(2))
  next
    case (Break xs)
    then show ?thesis
      by (simp add: fetch_pages_Break page_events_def full_page_def del: fetch_pages.simps(2))
  next
    case (Continue xs)
    with Cons.IH[of "rs @ xs"] show ?thesis
      by (simp add: fetch_pages_Continue page_events_def full_page_def del: fetch_pages.simps(2))
  qed
qed

lemma calls_prefix:
  assumes "\<forall>p\<in>set front. full_page a (http (params a p))"
    and "\<not> full_page a (http (params a k)) \<or> back = []"
  shows "http_calls (snd (fetch_pages http a (front @ k # back) rs)) = front @ [k]"
  using assms
proof (induction front arbitrary: rs)
  case Nil
  show ?case
  proof (cases "fetch_page a (http (params a k)) []")
    case (Raise e)
    then show ?thesis by (simp add: fetch_pages_Raise del: fetch_pages.simps(2))
  next
    case (Break xs)
    then show ?thesis by (simp add: fetch_pages_Break del: fetch_pages.simps(2))
  next
    case (Continue xs)
    with Nil have "back = []" by (simp add: full_page_def)
    with Continue show ?thesis by (simp add: fetch_pages_Continue del: fetch_pages.simps(2))
  qed
next
  case (Cons p front)
  then obtain xs where "fetch_page a (http (params a p)) [] = Continue xs"
    by (auto simp: full_page_def split: page_step.splits)
  with Cons show ?case
    by (simp add: fetch_pages_Continue del: fetch_pages.simps(2))
qed

lemma result_prefix:
  assumes "\<forall>p\<in>set front. full_page a (http (params a p))"
    and "successful a (http (params a k))"
    and "\<not> full_page a (http (params a k)) \<or> back = []"
  shows "\<exists>out. fst (fetch_pages http a (front @ k # back) rs) = Inr out"
  using assms
proof (induction front arbitrary: rs)
  case Nil
  show ?case
  proof (cases "fetch_page a (http (params a k)) []")
    case (Raise e)
    with Nil show ?thesis by (simp add: successful_def)
  next
    case (Break xs)
    then show ?thesis by (simp add: fetch_pages_Break del: fetch_pages.simps(2))
  next
    case (Continue xs)
    with Nil have "back = []" by (simp add: full_page_def)
    with Continue show ?thesis by (simp add: fetch_pages_Continue del: fetch_pages.simps(2))
  qed
next
  case (Cons p front)
  then obtain xs where "fetch_page a (http (params a p)) [] = Continue xs"
    by (auto simp: full_page_def split: page_step.splits)
  with Cons show ?case
    by (simp add: fetch_pages_Continue del: fetch_pages.simps(2))
qed

lemma full_page_iff:
  "successful a got \<Longrightarrow> full_page a got \<longleftrightarrow> \<not> stop_page a got"
  using successful_break_iff[of a got]
  by (auto simp: successful_def full_page_def split: page_step.splits)

lemma calls_all_full:
  assumes "\<forall>p\<in>set ps. full_page a (http (params a p))"
  shows "http_calls (snd (fetch_pages http a ps rs)) = ps"
proof (cases ps rule: rev_cases)
  case Nil
  then show ?thesis by simp
next
  case (snoc front k)
  with assms calls_prefix[of front a http k "[]" rs] show ?thesis by simp
qed

lemma upto_around:
  fixes k :: int
  assumes "1 \<le> k" "k \<le> n"
  shows "[1..n] = [1..k - 1] @ k # [k + 1..n]"
  using assms by (rule upto_split3)

lemma paging_general:
  assumes "1 \<le> k" "k \<le> max_pages a"
    and "\<forall>j\<in>{1..<k}. successful a (http (params a j)) \<and> \<not> stop_page a (http (params a j))"
    and "successful a (http (params a k))"
    and "stop_page a (http (params a k)) \<or> k = max_pages a"
  shows "http_calls (snd (fetch_usdt_transfers http a)) = [1..k] \<and>
         (\<exists>out. fst (fetch_usdt_transfers http a) = Inr out)"
proof -
  have split: "[1..max_pages a] = [1..k - 1] @ k # [k + 1..max_pages a]"
    using assms(1,2) by (rule upto_around)
  have front: "\<forall>p\<in>set [1..k - 1]. full_page a (http (params a p))"
    using assms(3) by (auto simp: full_page_iff)
  have last: "\<not> full_page a (http (params a k)) \<or> [k + 1..max_pages a] = []"
    using assms(4,5) by (auto simp: full_page_iff)
  have "[1..k - 1] @ [k] = [1..k]"
    using assms(1) upto_rec2[of 1 k] by simp
  with calls_prefix[OF front last, where rs = "[]"]
    result_prefix[OF front assms(4) last, where rs = "[]"]
  show ?thesis
    by (simp add: fetch_usdt_transfers_def split)
qed

lemma no_pages: "max_pages a < 1 \<Longrightarrow> fetch_usdt_transfers http a = (Inr [], [])"
  by (simp add: fetch_usdt_transfers_def)

lemma trace_all_full:
  assumes "\<forall>j\<in>{1..max_pages a}. full_page a (http (params a j))"
  shows "snd (fetch_usdt_transfers http a) =
     concat (map (\<lambda>p. [HttpGet (params a p), Sleep (sleep_secs a)]) [1..max_pages a])"
proof -
  have full: "\<forall>p\<in>set [1..max_pages a]. full_page a (http (params a p))"
    using assms by simp
  have "map (page_events http a) [1..max_pages a] =
        map (\<lambda>p. [HttpGet (params a p), Sleep (sleep_secs a)]) [1..max_pages a]"
    using full by (intro map_cong) (simp_all add: page_events_def)
  with trace_page_events[of http a "[1..max_pages a]" "[]"] calls_all_full[OF full, where rs = "[]"]
  show ?thesis by (simp add: fetch_usdt_transfers_def)
qed

subsection \<open>The records of a run\<close>

lemma transform_item_filter:
  "transform_item item (Some m) = Inr (Some r) \<Longrightarrow> m \<le> amount_usdt r"
  by (drule transform_item_Some) auto

lemma transform_and_filter_min:
  "transform_and_filter items (Some m) = Inr rs \<Longrightarrow> \<forall>r\<in>set rs. m \<le> amount_usdt r"
proof (induction items arbitrary: rs)
  case Nil
  then show ?case by simp
next
  case (Cons item items)
  then show ?case
    by (auto dest!: and_then_Inr transform_item_filter split: option.splits)
qed

lemma transform_item_unfiltered: "transform_item item None \<noteq> Inr None"
  unfolding transform_item_def USDT_DECIMALS_def
  by (auto dest!: and_then_Inr)

lemma transform_and_filter_unfiltered:
  "transform_and_filter items None = Inr rs \<Longrightarrow> length rs = length items"
proof (induction items arbitrary: rs)
  case Nil
  then show ?case by simp
next
  case (Cons item items)
  then show ?case
    using transform_item_unfiltered[of item]
    by (auto dest!: and_then_Inr split: option.splits)
qed

lemma fetch_page_records:
  assumes "fetch_page a got [] = Break xs \<or> fetch_page a got [] = Continue xs"
  shows "\<exists>items. transform_and_filter items (min_value a) = Inr xs"
proof (cases got)
  case None
  with assms show ?thesis by (simp add: fetch_page_def)
next
  case (Some resp)
  show ?thesis
  proof (cases "envelope resp")
    case None
    with Some assms fetch_page_no_envelope[OF None, of a "[]"] show ?thesis by auto
  next
    case E: (Some kvs)
    have nil: "\<exists>items. transform_and_filter items (min_value a) = Inr []"
      by (rule exI[of _ "[]"]) simp
    from assms Some E nil show ?thesis
      by (auto simp: fetch_page_envelope on_error_def split: sum.splits if_splits)
  qed
qed

lemma fetch_pages_records:
  assumes "fst (fetch_pages http a ps rs) = Inr out"
  shows "\<exists>xs. out = rs @ xs \<and>
     (\<forall>r\<in>set xs. \<exists>items filtered.
         transform_and_filter items (min_value a) = Inr filtered \<and> r \<in> set filtered)"
  using assms
proof (induction ps arbitrary: rs)
  case Nil
  then show ?case by simp
next
  case (Cons p ps)
  show ?case
  proof (cases "fetch_page a (http (params a p)) []")
    case (Raise e)
    with Cons.prems show ?thesis by (simp add: fetch_pages_Raise del: fetch_pages.simps(2))
  next
    case (Break xs)
    then obtain items where "transform_and_filter items (min_value a) = Inr xs"
      using fetch_page_records[of a "http (params a p)" xs] by blast
    with Break Cons.prems show ?thesis
      by (auto simp: fetch_pages_Break simp del: fetch_pages.simps(2))
  next
    case (Continue xs)
    from Continue fetch_page_records[of a "http (params a p)" xs]
    obtain items where items: "transform_and_filter items (min_value a) = Inr xs" by blast
    from Continue Cons.prems have "fst (fetch_pages http a ps (rs @ xs)) = Inr out"
      by (simp add: fetch_pages_Continue del: fetch_pages.simps(2))
    from Cons.IH[OF this] obtain ys where ys: "out = (rs @ xs) @ ys"
      "\<forall>r\<in>set ys. \<exists>items filtered.
         transform_and_filter items (min_value a) = Inr filtered \<and> r \<in> set filtered"
      by blast
    show ?thesis
    proof (intro exI[of _ "xs @ ys"] conjI ballI)
      show "out = rs @ xs @ ys" using ys(1) by simp
    next
      fix r assume "r \<in> set (xs @ ys)"
      then show "\<exists>items filtered.
         transform_and_filter items (min_value a) = Inr filtered \<and> r \<in> set filtered"
        using items ys(2) by auto
    qed
  qed
qed

lemma min_value_general:
  "(fst (fetch_usdt_transfers http a) = Inr out \<and> min_value a = Some m
      \<longrightarrow> (\<forall>r\<in>set out. m \<le> amount_usdt r)) \<and>
   (transform_and_filter items None = Inr rs \<longrightarrow> length rs = length items) \<and>
   transform_item item None \<noteq> Inr None"
proof (intro conjI impI)
  assume h: "fst (fetch_usdt_transfers http a) = Inr out \<and> min_value a = Some m"
  then have "fst (fetch_pages http a [1..max_pages a] []) = Inr out"
    by (simp add: fetch_usdt_transfers_def)
  from fetch_pages_records[OF this] h show "\<forall>r\<in>set out. m \<le> amount_usdt r"
    using transform_and_filter_min by fastforce
qed (simp_all add: transform_and_filter_unfiltered transform_item_unfiltered)

subsection \<open>The exceptions of each step\<close>

lemma py_int_str_error: "py_int_str s = Inl e \<Longrightarrow> e = ValueError"
  by (auto simp: py_int_str_def Let_def split: option.splits)

lemma py_int_error: "py_int x = Inl e \<Longrightarrow> e = ValueError \<or> e = TypeError"
  by (cases x) (auto dest: py_int_str_error)

lemma round_double_error: "round_double q = Inl e \<Longrightarrow> e = OverflowError"
  by (auto simp: round_double_def Let_def split: if_splits)

lemma truediv_error: "b \<noteq> 0 \<Longrightarrow> truediv v b = Inl e \<Longrightarrow> e = OverflowError"
  by (auto simp: truediv_def dest: round_double_error)

lemma utc_isoformat_error: "utc_isoformat ts = Inl e \<Longrightarrow> e = TimestampError"
  by (auto simp: utc_isoformat_def Let_def split: if_splits prod.splits)

lemma py_get_error: "py_get item k d = Inl e \<Longrightarrow> e = AttributeError"
  by (cases item) auto

lemma transform_item_error:
  assumes "transform_item item mv = Inl e"
  shows "e \<in> {AttributeError, ValueError, TypeError, OverflowError, TimestampError}"
  using assms unfolding transform_item_def USDT_DECIMALS_def
  by (auto dest!: and_then_Inl py_get_error py_int_error truediv_error[rotated]
      utc_isoformat_error split: if_splits)

lemma transform_and_filter_error:
  "transform_and_filter items mv = Inl e \<Longrightarrow>
   e \<in> {AttributeError, ValueError, TypeError, OverflowError, TimestampError}"
proof (induction items)
  case Nil
  then show ?case by simp
next
  case (Cons item items)
  then show ?case
    using transform_item_error[of item mv e]
    by (auto dest!: and_then_Inl)
qed

lemma py_iter_error: "py_iter x = Inl e \<Longrightarrow> e = TypeError"
  by (cases x) auto

lemma py_len_error: "py_len x = Inl e \<Longrightarrow> e = TypeError"
  by (cases x) auto

lemma lower_strip_error: "lower_strip x = Inl e \<Longrightarrow> e = AttributeError"
  by (cases x) auto

lemma on_error_Raise:
  "on_error r f = Raise e \<Longrightarrow> r = Inl e \<or> (\<exists>x. r = Inr x \<and> f x = Raise e)"
  by (cases r) simp_all

lemma fetch_page_etherscan_iff:
  "fetch_page a got rs = Raise (EtherscanError m) \<longleftrightarrow>
     (\<exists>resp. got = Some resp \<and> (http_failure resp m \<or> api_failure resp m))"
proof (cases got)
  case None
  then show ?thesis by (simp add: fetch_page_def)
next
  case (Some resp)
  show ?thesis
  proof (cases "status_code resp = 200")
    case False
    with Some show ?thesis
      by (auto simp: fetch_page_def http_failure_def api_failure_def envelope_def)
  next
    case code: True
    show ?thesis
    proof (cases "envelope resp")
      case None
      with code have "fetch_page a (Some resp) rs = Raise JSONDecodeError \<or>
          fetch_page a (Some resp) rs = Raise AttributeError"
        by (auto simp: envelope_def fetch_page_def split: option.splits json.splits)
      with Some None code show ?thesis
        by (auto simp: http_failure_def api_failure_def)
    next
      case E: (Some kvs)
      show ?thesis
      proof (cases "status_ok (field kvs ''status'')")
        case False
        with Some E code show ?thesis
          by (auto simp: fetch_page_envelope http_failure_def api_failure_def message_text_def
              on_error_def split: sum.splits json.splits dest: lower_strip_error)
      next
        case True
        have "fetch_page a (Some resp) rs \<noteq> Raise (EtherscanError m)"
          using True E
          by (auto simp: fetch_page_envelope dest!: on_error_Raise
              dest: py_iter_error py_len_error transform_and_filter_error split: if_splits)
        with Some E code True show ?thesis
          by (auto simp: http_failure_def api_failure_def)
      qed
    qed
  qed
qed

lemma fetch_pages_etherscan_iff:
  "fst (fetch_pages http a ps rs) = Inl (EtherscanError m) \<longleftrightarrow>
     (\<exists>p\<in>set (http_calls (snd (fetch_pages http a ps rs))). \<exists>resp.
        http (params a p) = Some resp \<and> (http_failure resp m \<or> api_failure resp m))"
proof (induction ps arbitrary: rs)
  case Nil
  show ?case by simp
next
  case (Cons p ps)
  show ?case
  proof (cases "fetch_page a (http (params a p)) []")
    case (Raise e)
    with fetch_page_etherscan_iff[of a "http (params a p)" "[]" m] show ?thesis
      by (auto simp: fetch_pages_Raise simp del: fetch_pages.simps(2))
  next
    case (Break xs)
    with fetch_page_etherscan_iff[of a "http (params a p)" "[]" m] show ?thesis
      by (auto simp: fetch_pages_Break simp del: fetch_pages.simps(2))
  next
    case (Continue xs)
    with fetch_page_etherscan_iff[of a "http (params a p)" "[]" m] Cons.IH[of "rs @ xs"]
    show ?thesis
      by (auto simp: fetch_pages_Continue simp del: fetch_pages.simps(2))
  qed
qed

lemma no_records_break:
  "no_records_page resp \<Longrightarrow> fetch_page a (Some resp) rs = Break rs"
  by (auto simp: no_records_page_alt message_text_def fetch_page_envelope
      split: option.splits json.splits)

subsection \<open>Evaluations on the sample data\<close>

lemma int_1500000: "py_int_str ''1500000'' = Inr 1500000"
  by code_simp

lemma int_gas_price: "py_int_str ''20000000000'' = Inr 20000000000"
  by code_simp

lemma int_gas_used: "py_int_str ''21000'' = Inr 21000"
  by code_simp

lemma int_ts: "py_int_str ''1700000000'' = Inr 1700000000"
  by code_simp

lemma int_zero: "py_int_str ''0'' = Inr 0"
  by code_simp

lemma truediv_amount: "truediv 1500000 1000000 = Inr (3 / 2)"
  by code_simp

lemma truediv_fee: "truediv 420000000000000 1000000000000000000 = Inr (1936908127739503 / 4611686018427387904)"
  by code_simp

lemma iso_sample: "utc_isoformat 1700000000 = Inr ''2023-11-14T22:13:20+00:00''"
  by code_simp

lemma iso_epoch: "utc_isoformat 0 = Inr ''1970-01-01T00:00:00+00:00''"
  by code_simp

lemma transform_sample:
  "mv = None \<or> the mv \<le> 3 / 2 \<Longrightarrow> transform_item sample_item mv = Inr (Some sample_record)"
  by (auto simp: transform_item_def sample_item_def sample_record_def USDT_DECIMALS_def
      int_1500000 int_gas_price int_gas_used int_ts truediv_amount truediv_fee iso_sample)

lemma transform_sample_filtered:
  "3 / 2 < m \<Longrightarrow> transform_item sample_item (Some m) = Inr None"
  by (auto simp: transform_item_def sample_item_def USDT_DECIMALS_def
      int_1500000 truediv_amount)

lemma int_500000: "py_int_str ''500000'' = Inr 500000"
  by code_simp

lemma truediv_dust: "truediv 500000 1000000 = Inr (1 / 2)"
  by code_simp

lemma transform_dust:
  "1 / 2 < m \<Longrightarrow> transform_item dust_item (Some m) = Inr None"
  by (auto simp: transform_item_def dust_item_def USDT_DECIMALS_def int_500000 truediv_dust)

lemma str_502: "str_int 502 = ''502''"
  by code_simp

lemma lower_notok: "py_strip (py_lower ''NOTOK'') = ''notok''"
  by code_simp

lemma lower_no_records: "py_strip (py_lower ''No records found'') = ''no records found''"
  by code_simp

lemma transform_and_filter_all2:
  "list_all2 (\<lambda>item r. transform_item item mv = Inr (Some r)) items recs \<Longrightarrow>
   transform_and_filter items mv = Inr recs"
  by (induction items recs rule: list_all2_induct) simp_all

lemma list_all2_replicate:
  "P x y \<Longrightarrow> list_all2 P (replicate n x) (replicate n y)"
  by (induction n) simp_all

lemma int_one: "py_int_str ''1'' = Inr 1"
  by code_simp

lemma int_far_future: "py_int_str ''253402300800'' = Inr 253402300800"
  by code_simp

lemma int_mainnet: "py_int_str ''mainnet'' = Inl ValueError"
  by code_simp

lemma int_five: "py_int_str ''5'' = Inr 5"
  by code_simp

lemma int_word: "py_int_str ''five'' = Inl ValueError"
  by code_simp

lemma truediv_one: "truediv 1 1000000 = Inr (4722366482869645 / 4722366482869645213696)"
  by code_simp

lemma truediv_zero: "b \<noteq> 0 \<Longrightarrow> truediv 0 b = Inr 0"
  by (simp add: truediv_def round_double_def)

lemma iso_far_future: "utc_isoformat 253402300800 = Inl TimestampError"
  by (simp add: utc_isoformat_def)

lemma int_field_obj:
  "int_field (JObj kvs) k = py_int (case map_of kvs k of None \<Rightarrow> JStr ''0'' | Some x \<Rightarrow> x)"
  by (simp add: int_field_def)

lemma int_field_error:
  assumes "int_field (JObj kvs) k = Inl e"
  shows "\<exists>x. map_of kvs k = Some x \<and> py_int x = Inl e"
  using assms by (cases "map_of kvs k") (simp_all add: int_field_obj int_zero)

subsection \<open>Where the normalizer can throw on a JSON object\<close>

lemma transform_item_obj:
  "transform_item (JObj kvs) mv =
     and_then (int_field (JObj kvs) ''value'') (\<lambda>v.
     and_then (truediv v (10 ^ 6)) (\<lambda>amount.
     if mv \<noteq> None \<and> amount < the mv then Inr None
     else
     and_then (int_field (JObj kvs) ''gasPrice'') (\<lambda>gas_price.
     and_then (int_field (JObj kvs) ''gasUsed'') (\<lambda>gas_used.
     and_then (truediv (gas_price * gas_used) (10 ^ 18)) (\<lambda>fee.
     and_then (int_field (JObj kvs) ''timeStamp'') (\<lambda>ts.
     and_then (utc_isoformat ts) (\<lambda>iso.
     Inr (Some \<lparr>rec_from = field kvs ''from'', rec_to = field kvs ''to'', amount_usdt = amount,
                tx_hash = field kvs ''hash'', timestamp = iso, fee_eth = fee\<rparr>))))))))"
  by (simp add: transform_item_def int_field_def field_def USDT_DECIMALS_def cong: if_cong)

lemma utc_isoformat_range:
  "utc_isoformat ts = Inl e \<Longrightarrow> e = TimestampError \<and> (ts < - 62135596800 \<or> 253402300799 < ts)"
  by (auto simp: utc_isoformat_def Let_def split: if_splits prod.splits)

lemma truediv_overflow: "b \<noteq> 0 \<Longrightarrow> truediv v b = Inl e \<Longrightarrow> truediv v b = Inl OverflowError \<and> e = OverflowError"
  using truediv_error[of b v e] by simp

lemma transform_item_throws:
  assumes "transform_item (JObj kvs) mv = Inl e"
  shows "(\<exists>k\<in>{''value'', ''gasPrice'', ''gasUsed'', ''timeStamp''}. \<exists>x.
          map_of kvs k = Some x \<and> py_int x = Inl e) \<or>
      (e = OverflowError \<and>
         ((\<exists>v. int_field (JObj kvs) ''value'' = Inr v \<and>
               truediv v (10 ^ 6) = Inl OverflowError) \<or>
          (\<exists>gp gu. int_field (JObj kvs) ''gasPrice'' = Inr gp \<and>
               int_field (JObj kvs) ''gasUsed'' = Inr gu \<and>
               truediv (gp * gu) (10 ^ 18) = Inl OverflowError))) \<or>
      (e = TimestampError \<and>
         (\<exists>ts. int_field (JObj kvs) ''timeStamp'' = Inr ts \<and>
               (ts < - 62135596800 \<or> 253402300799 < ts)))"
proof -
  let ?A = "\<exists>k\<in>{''value'', ''gasPrice'', ''gasUsed'', ''timeStamp''}. \<exists>x.
          map_of kvs k = Some x \<and> py_int x = Inl e"
  have field_err: "\<And>k. k \<in> {''value'', ''gasPrice'', ''gasUsed'', ''timeStamp''} \<Longrightarrow>
      int_field (JObj kvs) k = Inl e \<Longrightarrow> ?A"
    using int_field_error[of kvs _ e] by blast
  from assms[unfolded transform_item_obj] show ?thesis
  proof (elim and_then_Inl[THEN disjE] exE conjE)
    assume "int_field (JObj kvs) ''value'' = Inl e"
    then show ?thesis using field_err by blast
  next
    fix v assume "int_field (JObj kvs) ''value'' = Inr v" "truediv v (10 ^ 6) = Inl e"
    then show ?thesis using truediv_overflow[of "10 ^ 6" v e] by auto
  next
    fix v amount
    assume v: "int_field (JObj kvs) ''value'' = Inr v" "truediv v (10 ^ 6) = Inr amount"
      and rest: "(if mv \<noteq> None \<and> amount < the mv then Inr None
     else
     and_then (int_field (JObj kvs) ''gasPrice'') (\<lambda>gas_price.
     and_then (int_field (JObj kvs) ''gasUsed'') (\<lambda>gas_used.
     and_then (truediv (gas_price * gas_used) (10 ^ 18)) (\<lambda>fee.
     and_then (int_field (JObj kvs) ''timeStamp'') (\<lambda>ts.
     and_then (utc_isoformat ts) (\<lambda>iso.
     Inr (Some \<lparr>rec_from = field kvs ''from'', rec_to = field kvs ''to'', amount_usdt = amount,
                tx_hash = field kvs ''hash'', timestamp = iso, fee_eth = fee\<rparr>))))))) = Inl e"
    then have "and_then (int_field (JObj kvs) ''gasPrice'') (\<lambda>gas_price.
     and_then (int_field (JObj kvs) ''gasUsed'') (\<lambda>gas_used.
     and_then (truediv (gas_price * gas_used) (10 ^ 18)) (\<lambda>fee.
     and_then (int_field (JObj kvs) ''timeStamp'') (\<lambda>ts.
     and_then (utc_isoformat ts) (\<lambda>iso.
     Inr (Some \<lparr>rec_from = field kvs ''from'', rec_to = field kvs ''to'', amount_usdt = amount,
                tx_hash = field kvs ''hash'', timestamp = iso, fee_eth = fee\<rparr>)))))) = Inl e"
      by (simp split: if_splits)
    then show ?thesis
    proof (elim and_then_Inl[THEN disjE] exE conjE)
      assume "int_field (JObj kvs) ''gasPrice'' = Inl e"
      then show ?thesis using field_err by blast
    next
      fix gp assume "int_field (JObj kvs) ''gasUsed'' = Inl e"
      then show ?thesis using field_err by blast
    next
      fix gp gu
      assume "int_field (JObj kvs) ''gasPrice'' = Inr gp" "int_field (JObj kvs) ''gasUsed'' = Inr gu"
        "truediv (gp * gu) (10 ^ 18) = Inl e"
      then show ?thesis using truediv_overflow[of "10 ^ 18" "gp * gu" e] by auto
    next
      fix gp gu fee assume "int_field (JObj kvs) ''timeStamp'' = Inl e"
      then show ?thesis using field_err by blast
    next
      fix gp gu fee ts
      assume "int_field (JObj kvs) ''timeStamp'' = Inr ts" "utc_isoformat ts = Inl e"
      then show ?thesis using utc_isoformat_range[of ts e] by blast
    next
      fix gp gu fee ts iso
      assume "Inr (Some \<lparr>rec_from = field kvs ''from'', rec_to = field kvs ''to'',
          amount_usdt = amount, tx_hash = field kvs ''hash'', timestamp = iso, fee_eth = fee\<rparr>)
          = (Inl e :: error + transfer option)"
      then show ?thesis by simp
    qed
  qed
qed

lemma absent_all_zero:
  "map_of kvs ''value'' = None \<and> map_of kvs ''gasPrice'' = None \<and>
    map_of kvs ''gasUsed'' = None \<and> map_of kvs ''timeStamp'' = None \<longrightarrow>
   transform_item (JObj kvs) None =
        Inr (Some \<lparr>rec_from = field kvs ''from'', rec_to = field kvs ''to'', amount_usdt = 0,
                   tx_hash = field kvs ''hash'', timestamp = ''1970-01-01T00:00:00+00:00'',
                   fee_eth = 0\<rparr>)"
  by (simp add: transform_item_obj int_field_obj int_zero truediv_zero iso_epoch)

lemma absent_each_zero:
  "transform_item (JObj kvs) mv = Inr (Some r) \<longrightarrow>
     (map_of kvs ''value'' = None \<longrightarrow> amount_usdt r = 0) \<and>
      (map_of kvs ''gasPrice'' = None \<or> map_of kvs ''gasUsed'' = None \<longrightarrow> fee_eth r = 0) \<and>
      (map_of kvs ''timeStamp'' = None \<longrightarrow> timestamp r = ''1970-01-01T00:00:00+00:00'')"
proof
  assume r: "transform_item (JObj kvs) mv = Inr (Some r)"
  from transform_item_Some[OF r]
  obtain v gp gu ts where f: "int_field (JObj kvs) ''value'' = Inr v"
    "int_field (JObj kvs) ''gasPrice'' = Inr gp" "int_field (JObj kvs) ''gasUsed'' = Inr gu"
    "int_field (JObj kvs) ''timeStamp'' = Inr ts"
    "truediv v (10 ^ 6) = Inr (amount_usdt r)" "truediv (gp * gu) (10 ^ 18) = Inr (fee_eth r)"
    "utc_isoformat ts = Inr (timestamp r)"
    by blast
  have a: "map_of kvs ''value'' = None \<longrightarrow> amount_usdt r = 0"
    using f(1,5) by (auto simp: int_field_obj int_zero truediv_zero)
  have "map_of kvs ''gasPrice'' = None \<or> map_of kvs ''gasUsed'' = None \<longrightarrow> gp = 0 \<or> gu = 0"
    using f(2,3) by (auto simp: int_field_obj int_zero)
  then have b: "map_of kvs ''gasPrice'' = None \<or> map_of kvs ''gasUsed'' = None \<longrightarrow> fee_eth r = 0"
    using f(6) by (auto simp: truediv_zero)
  have c: "map_of kvs ''timeStamp'' = None \<longrightarrow> timestamp r = ''1970-01-01T00:00:00+00:00''"
    using f(4,7) by (auto simp: int_field_obj int_zero iso_epoch)
  from a b c show "(map_of kvs ''value'' = None \<longrightarrow> amount_usdt r = 0) \<and>
      (map_of kvs ''gasPrice'' = None \<or> map_of kvs ''gasUsed'' = None \<longrightarrow> fee_eth r = 0) \<and>
      (map_of kvs ''timeStamp'' = None \<longrightarrow> timestamp r = ''1970-01-01T00:00:00+00:00'')"
    by blast
qed

subsection \<open>The config resolver\<close>

lemma get_chain_id_error:
  "get_chain_id store getenv = Inl e \<longrightarrow>
      e = EtherscanError ''ETHERSCAN_CHAIN_ID must be an integer.'' \<and>
      secrets_chain_id store = None \<and>
      (\<exists>v. getenv ''ETHERSCAN_CHAIN_ID'' = Some v \<and> v \<noteq> [] \<and> py_int_str v = Inl ValueError)"
  by (auto simp: get_chain_id_def split: option.splits if_splits sum.splits
      dest: py_int_str_error)

lemma bad_secret_ignored:
  "bad_secret store \<longrightarrow> get_chain_id store getenv = get_chain_id None getenv"
proof
  assume "bad_secret store"
  then have "secrets_chain_id store = None"
    by (auto simp: bad_secret_def secrets_chain_id_def split: option.splits sum.splits)
  then show "get_chain_id store getenv = get_chain_id None getenv"
    by (simp add: get_chain_id_def secrets_chain_id_def)
qed

lemma chain_id_default:
  "getenv ''ETHERSCAN_CHAIN_ID'' = None \<or> getenv ''ETHERSCAN_CHAIN_ID'' = Some [] \<longrightarrow>
   get_chain_id None getenv = Inr 1"
  by (auto simp: get_chain_id_def secrets_chain_id_def DEFAULT_CHAIN_ID_def)

lemma chain_id_from_environment:
  "getenv ''ETHERSCAN_CHAIN_ID'' = Some v \<and> v \<noteq> [] \<longrightarrow>
   get_chain_id None getenv =
        (case py_int_str v of
           Inr n \<Rightarrow> Inr n
         | Inl x \<Rightarrow> Inl (EtherscanError ''ETHERSCAN_CHAIN_ID must be an integer.''))"
  by (auto simp: get_chain_id_def secrets_chain_id_def split: sum.splits dest: py_int_str_error)

lemma transform_item_throws_imp:
  "transform_item (JObj kvs) mv = Inl e \<longrightarrow>
      (\<exists>k\<in>{''value'', ''gasPrice'', ''gasUsed'', ''timeStamp''}. \<exists>x.
          map_of kvs k = Some x \<and> py_int x = Inl e) \<or>
      (e = OverflowError \<and>
         ((\<exists>v. int_field (JObj kvs) ''value'' = Inr v \<and>
               truediv v (10 ^ 6) = Inl OverflowError) \<or>
          (\<exists>gp gu. int_field (JObj kvs) ''gasPrice'' = Inr gp \<and>
               int_field (JObj kvs) ''gasUsed'' = Inr gu \<and>
               truediv (gp * gu) (10 ^ 18) = Inl OverflowError))) \<or>
      (e = TimestampError \<and>
         (\<exists>ts. int_field (JObj kvs) ''timeStamp'' = Inr ts \<and>
               (ts < - 62135596800 \<or> 253402300799 < ts)))"
  by (rule impI) (rule transform_item_throws)

subsection \<open>The sample pages, evaluated\<close>

lemma envelope_json_response [simp]: "envelope (json_response kvs) = Some kvs"
  by (simp add: envelope_def json_response_def)

lemma serve_params [simp]: "serve rs (params a p) = serve_from 1 rs p"
  by (simp add: serve_def)

lemma sample_args_simps [simp]:
  "page_size (sample_args n k mv) = n"
  "max_pages (sample_args n k mv) = k"
  "min_value (sample_args n k mv) = mv"
  "sleep_secs (sample_args n k mv) = 3602879701896397 / 18014398509481984"
  by (simp_all add: sample_args_def default_args_def)

lemma upto_1_1: "[1..1] = [1::int]"
  by (simp add: upto.simps)

lemma upto_1_2: "[1..2] = [1, 2::int]"
  by (simp add: upto.simps)

lemma ok_page_step:
  assumes "transform_and_filter items (min_value a) = Inr xs"
  shows "fetch_page a (Some (ok_page items)) rs =
     (if items = [] then Break rs
      else if int (length items) < page_size a then Break (rs @ xs)
      else Continue (rs @ xs))"
proof -
  have "envelope (ok_page items) =
      Some [(''status'', JStr ''1''), (''message'', JStr ''OK''), (''result'', JList items)]"
    by (simp add: ok_page_def)
  from fetch_page_envelope[OF this] assms show ?thesis
    by (simp add: field_def status_ok_def)
qed

lemma transform_one_sample:
  "mv = None \<or> the mv \<le> 3 / 2 \<Longrightarrow> transform_and_filter [sample_item] mv = Inr [sample_record]"
  by (simp add: transform_sample)

lemma one_sample_page:
  "fetch_page (sample_args 1 k None) (Some (ok_page [sample_item])) rs = Continue (rs @ [sample_record])"
  by (simp add: ok_page_step[where xs = "[sample_record]"] transform_sample)

lemma empty_ok_page:
  "fetch_page a (Some (ok_page [])) rs = Break rs"
  by (simp add: ok_page_step[where xs = "[]"])

section \<open>C1: where the paging stops\<close>

text \<open>
  C1, as stated: paging stops at the first page whose message is the end-of-data
  message, whatever its status.  It does not: page 1 of the run below carries the
  message \<^verbatim>\<open>No records found\<close> with the success status \<^verbatim>\<open>"1"\<close> and a full result, the body
  of the loop does not raise on it, and page 2 is requested all the same.
\<close>

theorem paging_ignores_message_on_success_counterexample:
  "says_no_records flagged_page \<and>
   successful (sample_args 1 2 None) (Some flagged_page) \<and>
   http_calls (snd (fetch_usdt_transfers (serve [flagged_page, flagged_page])
                      (sample_args 1 2 None))) = [1, 2]"
proof -
  have env: "envelope flagged_page =
      Some [(''status'', JStr ''1''), (''message'', JStr ''No records found''),
            (''result'', JList [sample_item])]"
    by (simp add: flagged_page_def)
  have low: "py_strip (py_lower ''No records found'') = ''no records found''"
    by code_simp
  have says: "says_no_records flagged_page"
    by (simp add: says_no_records_def env message_text_def field_def py_or_def low)
  have step: "\<And>rs. fetch_page (sample_args 1 2 None) (Some flagged_page) rs =
      Continue (rs @ [sample_record])"
    by (simp add: fetch_page_envelope[OF env] field_def status_ok_def transform_sample)
  have run: "fetch_usdt_transfers (serve [flagged_page, flagged_page]) (sample_args 1 2 None) =
      (Inr [sample_record, sample_record],
       [HttpGet (params (sample_args 1 2 None) 1), Sleep (sleep_secs (sample_args 1 2 None)),
        HttpGet (params (sample_args 1 2 None) 2), Sleep (sleep_secs (sample_args 1 2 None))])"
    by (simp add: fetch_usdt_transfers_def step upto_1_2)
  show ?thesis
    using says step[of "[]"] by (simp add: successful_def run)
qed

text \<open>
  C1, amended: over page responses on which the body of the loop does not raise,
  paging stops exactly at the first page that (a) has no success status and carries
  the end-of-data message, (b) has an empty result, (c) has a result shorter than
  \<^verbatim>\<open>page_size\<close>, or (d) is page \<^verbatim>\<open>max_pages\<close>: the HTTP calls of the run are the pages \<open>1\<close>
  to \<open>k\<close>, in order, and the run returns a list.  With \<^verbatim>\<open>max_pages\<close> below 1 there is no
  call at all.
\<close>

theorem paging_stops_at_first_stop_page:
  "(1 \<le> k \<and> k \<le> max_pages a \<and>
    (\<forall>j\<in>{1..<k}. successful a (http (params a j)) \<and> \<not> stop_page a (http (params a j))) \<and>
    successful a (http (params a k)) \<and>
    (stop_page a (http (params a k)) \<or> k = max_pages a)
    \<longrightarrow> http_calls (snd (fetch_usdt_transfers http a)) = [1..k] \<and>
        (\<exists>out. fst (fetch_usdt_transfers http a) = Inr out)) \<and>
   (max_pages a < 1 \<longrightarrow> fetch_usdt_transfers http a = (Inr [], []))"
  using paging_general[of k a http] no_pages[of a http] by blast

theorem paging_stops_at_first_stop_page_witness:
  "\<not> stop_page (sample_args 1 5 None) (Some (ok_page [sample_item])) \<and>
   stop_page (sample_args 1 5 None) (Some (ok_page [])) \<and>
   http_calls (snd (fetch_usdt_transfers (serve [ok_page [sample_item], ok_page []])
                      (sample_args 1 5 None))) = [1, 2]"
proof -
  let ?a = "sample_args 1 5 None"
  let ?net = "serve [ok_page [sample_item], ok_page []]"
  have s1: "successful ?a (Some (ok_page [sample_item]))"
    by (simp add: successful_def one_sample_page)
  have f1: "full_page ?a (Some (ok_page [sample_item]))"
    by (simp add: full_page_def one_sample_page)
  have s2: "successful ?a (Some (ok_page []))"
    by (simp add: successful_def empty_ok_page)
  have n2: "\<not> full_page ?a (Some (ok_page []))"
    by (simp add: full_page_def empty_ok_page)
  from s1 f1 have ns1: "\<not> stop_page ?a (Some (ok_page [sample_item]))"
    by (simp add: full_page_iff)
  from s2 n2 have st2: "stop_page ?a (Some (ok_page []))"
    by (simp add: full_page_iff)
  have before: "\<forall>j\<in>{1..<2::int}. successful ?a (?net (params ?a j)) \<and>
      \<not> stop_page ?a (?net (params ?a j))"
  proof
    fix j :: int assume "j \<in> {1..<2}"
    then have "j = 1" by simp
    with s1 ns1 show "successful ?a (?net (params ?a j)) \<and> \<not> stop_page ?a (?net (params ?a j))"
      by simp
  qed
  have "http_calls (snd (fetch_usdt_transfers ?net ?a)) = [1..2]"
    using paging_stops_at_first_stop_page[of 2 ?a ?net] before s2 st2 by simp
  with ns1 st2 show ?thesis by (simp add: upto_1_2)
qed

section \<open>C2: amount and fee of a record\<close>

text \<open>
  C2: whenever the normalizer yields a record for a raw item, its amount is the true
  division of \<^verbatim>\<open>int(value)\<close> by \<open>10\<^sup>6\<close> and its fee the true division of
  \<^verbatim>\<open>int(gasPrice) * int(gasUsed)\<close> by \<open>10\<^sup>1\<^sup>8\<close>; an item with the value \<^verbatim>\<open>"1500000"\<close> gets
  the amount 1.5.
\<close>

theorem normalizer_amount_and_fee:
  "(transform_item item mv = Inr (Some r) \<longrightarrow>
      (\<exists>v gp gu. int_field item ''value'' = Inr v \<and> int_field item ''gasPrice'' = Inr gp \<and>
         int_field item ''gasUsed'' = Inr gu \<and>
         truediv v (10 ^ 6) = Inr (amount_usdt r) \<and>
         truediv (gp * gu) (10 ^ 18) = Inr (fee_eth r))) \<and>
   (transform_item item mv = Inr (Some r) \<and>
    py_get item ''value'' (JStr ''0'') = Inr (JStr ''1500000'') \<longrightarrow> amount_usdt r = 3 / 2)"
proof (intro conjI impI)
  assume "transform_item item mv = Inr (Some r)"
  from transform_item_Some[OF this]
  show "\<exists>v gp gu. int_field item ''value'' = Inr v \<and> int_field item ''gasPrice'' = Inr gp \<and>
         int_field item ''gasUsed'' = Inr gu \<and>
         truediv v (10 ^ 6) = Inr (amount_usdt r) \<and>
         truediv (gp * gu) (10 ^ 18) = Inr (fee_eth r)"
    by blast
next
  assume h: "transform_item item mv = Inr (Some r) \<and>
    py_get item ''value'' (JStr ''0'') = Inr (JStr ''1500000'')"
  from transform_item_Some[of item mv r] h
  obtain v where "int_field item ''value'' = Inr v" "truediv v (10 ^ 6) = Inr (amount_usdt r)"
    by blast
  with h show "amount_usdt r = 3 / 2"
    by (simp add: int_field_def int_1500000 truediv_amount)
qed

theorem normalizer_amount_and_fee_witness:
  "transform_item sample_item None = Inr (Some sample_record) \<and>
   py_get sample_item ''value'' (JStr ''0'') = Inr (JStr ''1500000'') \<and>
   amount_usdt sample_record = 3 / 2"
proof -
  have t: "transform_item sample_item None = Inr (Some sample_record)"
    by (simp add: transform_sample)
  have g: "py_get sample_item ''value'' (JStr ''0'') = Inr (JStr ''1500000'')"
    by (simp add: sample_item_def)
  from normalizer_amount_and_fee[of sample_item None sample_record] t g
  show ?thesis by blast
qed

section \<open>C3: the value filter\<close>

text \<open>
  C3: when \<^verbatim>\<open>min_value\<close> is supplied, every record of the returned list has an amount of
  at least \<^verbatim>\<open>min_value\<close>; when it is unset the filter drops nothing: no item takes the
  \<^verbatim>\<open>continue\<close>, and a page that normalizes gives one record per raw item.
\<close>

theorem min_value_filter:
  "(fst (fetch_usdt_transfers http a) = Inr out \<and> min_value a = Some m
      \<longrightarrow> (\<forall>r\<in>set out. m \<le> amount_usdt r)) \<and>
   (transform_and_filter items None = Inr rs \<longrightarrow> length rs = length items) \<and>
   transform_item item None \<noteq> Inr None"
  by (rule min_value_general)


theorem min_value_filter_witness:
  "fst (fetch_usdt_transfers (serve [ok_page [sample_item, dust_item]])
          (sample_args 5 1 (Some 1))) = Inr [sample_record] \<and>
   (1::rat) \<le> amount_usdt sample_record"
proof -
  let ?a = "sample_args 5 1 (Some 1)"
  let ?net = "serve [ok_page [sample_item, dust_item]]"
  have "transform_and_filter [sample_item, dust_item] (Some 1) = Inr [sample_record]"
    by (simp add: transform_sample transform_dust)
  then have run: "fst (fetch_usdt_transfers ?net ?a) = Inr [sample_record]"
    by (simp add: fetch_usdt_transfers_def upto_1_1 ok_page_step[where xs = "[sample_record]"])
  with min_value_filter[of ?net ?a "[sample_record]" 1] show ?thesis
    by simp
qed

section \<open>C4: when the fetcher raises its error\<close>

text \<open>
  C4, as stated: every page whose envelope has no success status and a message other
  than \<^verbatim>\<open>no records found\<close> makes the function raise its \<open>EtherscanError\<close>.  It does
  not when the message is not a string: on the page \<^verbatim>\<open>{status: "0", message: 5}\<close> the
  call \<^verbatim>\<open>message.lower()\<close> raises an \<^verbatim>\<open>AttributeError\<close>, and that is what the function
  raises.
\<close>

theorem non_string_message_counterexample:
  "status_code numeric_message = 200 \<and>
   resp_json numeric_message = Some (JObj [(''status'', JStr ''0''), (''message'', JInt 5)]) \<and>
   \<not> status_ok (JStr ''0'') \<and>
   fetch_usdt_transfers (serve [numeric_message]) (sample_args 100 5 None) =
     (Inl AttributeError, [HttpGet (params (sample_args 100 5 None) 1)])"
proof -
  have env: "envelope numeric_message = Some [(''status'', JStr ''0''), (''message'', JInt 5)]"
    by (simp add: numeric_message_def)
  have "\<And>rs. fetch_page (sample_args 100 5 None) (Some numeric_message) rs = Raise AttributeError"
    by (simp add: fetch_page_envelope[OF env] field_def status_ok_def py_or_def)
  then show ?thesis
    by (simp add: fetch_usdt_transfers_def upto.simps[of 1 5] numeric_message_def
        json_response_def status_ok_def)
qed

text \<open>
  C4, amended: the function raises an \<open>EtherscanError\<close> with message \<open>m\<close> if and only
  if one of the responses it received has a status other than 200, \<open>m\<close> naming that
  status and the text of the body, or is an envelope without a success status whose
  message is a string, or the default \<^verbatim>\<open>unknown error\<close> for a missing, null or empty
  one, that is not the end-of-data message, \<open>m\<close> naming that message.  The result is
  then the error alone, whatever the earlier pages had accumulated.
\<close>

theorem etherscan_error_iff_failed_response:
  "fst (fetch_usdt_transfers http a) = Inl (EtherscanError m) \<longleftrightarrow>
     (\<exists>p\<in>set (http_calls (snd (fetch_usdt_transfers http a))). \<exists>resp.
        http (params a p) = Some resp \<and> (http_failure resp m \<or> api_failure resp m))"
  unfolding fetch_usdt_transfers_def by (rule fetch_pages_etherscan_iff)

theorem etherscan_error_iff_failed_response_witness:
  "fetch_usdt_transfers (serve [ok_page [sample_item], bad_gateway]) (sample_args 1 5 None) =
     (Inl (EtherscanError ''Etherscan status 502: Bad Gateway''),
      [HttpGet (params (sample_args 1 5 None) 1), Sleep (sleep_secs (sample_args 1 5 None)),
       HttpGet (params (sample_args 1 5 None) 2)]) \<and>
   http_failure bad_gateway ''Etherscan status 502: Bad Gateway'' \<and>
   api_failure rate_limited ''Etherscan error: NOTOK'' \<and>
   fst (fetch_usdt_transfers (serve [rate_limited]) (sample_args 1 5 None)) =
     Inl (EtherscanError ''Etherscan error: NOTOK'')"
proof -
  let ?a = "sample_args 1 5 None"
  let ?net = "serve [ok_page [sample_item], bad_gateway]"
  have bad: "\<And>rs. fetch_page ?a (Some bad_gateway) rs =
      Raise (EtherscanError ''Etherscan status 502: Bad Gateway'')"
    by (simp add: fetch_page_def bad_gateway_def str_502)
  have run: "fetch_usdt_transfers ?net ?a =
     (Inl (EtherscanError ''Etherscan status 502: Bad Gateway''),
      [HttpGet (params ?a 1), Sleep (sleep_secs ?a), HttpGet (params ?a 2)])"
    by (simp add: fetch_usdt_transfers_def upto.simps[of 1 5] one_sample_page bad)
  have http: "http_failure bad_gateway ''Etherscan status 502: Bad Gateway''"
    by (simp add: http_failure_def bad_gateway_def str_502)
  have api: "api_failure rate_limited ''Etherscan error: NOTOK''"
    by (simp add: api_failure_def rate_limited_def message_text_def field_def py_or_def
        status_ok_def lower_notok)
  have "fetch_page ?a (Some rate_limited) [] = Raise (EtherscanError ''Etherscan error: NOTOK'')"
    using api by (simp add: fetch_page_etherscan_iff)
  then have calls: "http_calls (snd (fetch_usdt_transfers (serve [rate_limited]) ?a)) = [1]"
    by (simp add: fetch_usdt_transfers_def upto.simps[of 1 5])
  have "fst (fetch_usdt_transfers (serve [rate_limited]) ?a) =
      Inl (EtherscanError ''Etherscan error: NOTOK'')"
    using etherscan_error_iff_failed_response[of "serve [rate_limited]" ?a "''Etherscan error: NOTOK''"]
      calls api
    by simp
  with run http api show ?thesis by simp
qed

section \<open>C5: the end-of-data message\<close>

text \<open>
  C5: a page without a success status whose message, lowercased and trimmed, is
  \<^verbatim>\<open>no records found\<close> is not an error: the loop ends there and the function returns the
  records accumulated so far.  When page 1 is \<^verbatim>\<open>{status: "0", message: "No records found"}\<close>
  the run is one HTTP call, and the empty list is returned.
\<close>

theorem no_records_ends_paging:
  "(http (params a p) = Some resp \<and> no_records_page resp \<longrightarrow>
      fetch_pages http a (p # ps) records = (Inr records, [HttpGet (params a p)])) \<and>
   (1 \<le> max_pages a \<and> http (params a 1) = Some resp \<and> envelope resp = Some kvs \<and>
    field kvs ''status'' = JStr ''0'' \<and> field kvs ''message'' = JStr ''No records found''
      \<longrightarrow> fetch_usdt_transfers http a = (Inr [], [HttpGet (params a 1)]))"
proof (intro conjI impI)
  assume "http (params a p) = Some resp \<and> no_records_page resp"
  then show "fetch_pages http a (p # ps) records = (Inr records, [HttpGet (params a p)])"
    by (simp add: no_records_break)
next
  assume h: "1 \<le> max_pages a \<and> http (params a 1) = Some resp \<and> envelope resp = Some kvs \<and>
    field kvs ''status'' = JStr ''0'' \<and> field kvs ''message'' = JStr ''No records found''"
  then have "no_records_page resp"
    by (simp add: no_records_page_alt message_text_def py_or_def status_ok_def lower_no_records)
  moreover from h have "[1..max_pages a] = 1 # [2..max_pages a]"
    by (simp add: upto.simps[of 1])
  ultimately show "fetch_usdt_transfers http a = (Inr [], [HttpGet (params a 1)])"
    using h by (simp add: fetch_usdt_transfers_def no_records_break)
qed

theorem no_records_ends_paging_witness:
  "fetch_usdt_transfers (serve [no_records_response]) (sample_args 100 5 None) =
     (Inr [], [HttpGet (params (sample_args 100 5 None) 1)]) \<and>
   fetch_pages (serve [ok_page [sample_item], no_records_response]) (sample_args 1 5 None)
       [2, 3, 4, 5] [sample_record] =
     (Inr [sample_record], [HttpGet (params (sample_args 1 5 None) 2)])"
proof -
  have env: "envelope no_records_response =
      Some [(''status'', JStr ''0''), (''message'', JStr ''No records found'')]"
    by (simp add: no_records_response_def)
  have page: "no_records_page no_records_response"
    by (simp add: no_records_page_alt env message_text_def py_or_def status_ok_def field_def
        lower_no_records)
  from no_records_ends_paging[of "serve [no_records_response]" "sample_args 100 5 None" 1
      no_records_response "[]" "[]" "[(''status'', JStr ''0''), (''message'', JStr ''No records found'')]"]
    env
  have one: "fetch_usdt_transfers (serve [no_records_response]) (sample_args 100 5 None) =
     (Inr [], [HttpGet (params (sample_args 100 5 None) 1)])"
    by (simp add: field_def)
  from no_records_ends_paging[of "serve [ok_page [sample_item], no_records_response]"
      "sample_args 1 5 None" 2 no_records_response "[3, 4, 5]" "[sample_record]"] page
  have "fetch_pages (serve [ok_page [sample_item], no_records_response]) (sample_args 1 5 None)
       [2, 3, 4, 5] [sample_record] =
     (Inr [sample_record], [HttpGet (params (sample_args 1 5 None) 2)])"
    by simp
  with one show ?thesis by simp
qed

section \<open>C6: two pages, in order\<close>

text \<open>
  C6: with \<^verbatim>\<open>page_size = 100\<close>, when page 1 returns 100 items and page 2 returns 40 items,
  both with a success status, and every item passes the filter, the run is exactly
  two HTTP calls with one sleep between them, and the function returns the 140
  records of the items in the order of the API: those of page 1, then those of page 2.
\<close>

theorem two_pages_in_order:
  "page_size a = 100 \<and> 2 \<le> max_pages a \<and>
   http (params a 1) = Some r1 \<and> envelope r1 = Some e1 \<and> status_ok (field e1 ''status'') \<and>
   field e1 ''result'' = JList items1 \<and> length items1 = 100 \<and>
   http (params a 2) = Some r2 \<and> envelope r2 = Some e2 \<and> status_ok (field e2 ''status'') \<and>
   field e2 ''result'' = JList items2 \<and> length items2 = 40 \<and>
   list_all2 (\<lambda>item r. transform_item item (min_value a) = Inr (Some r)) (items1 @ items2) recs
   \<longrightarrow> fetch_usdt_transfers http a =
         (Inr recs, [HttpGet (params a 1), Sleep (sleep_secs a), HttpGet (params a 2)]) \<and>
       length recs = 140"
proof
  assume h: "page_size a = 100 \<and> 2 \<le> max_pages a \<and>
   http (params a 1) = Some r1 \<and> envelope r1 = Some e1 \<and> status_ok (field e1 ''status'') \<and>
   field e1 ''result'' = JList items1 \<and> length items1 = 100 \<and>
   http (params a 2) = Some r2 \<and> envelope r2 = Some e2 \<and> status_ok (field e2 ''status'') \<and>
   field e2 ''result'' = JList items2 \<and> length items2 = 40 \<and>
   list_all2 (\<lambda>item r. transform_item item (min_value a) = Inr (Some r)) (items1 @ items2) recs"
  then obtain recs1 recs2 where recs: "recs = recs1 @ recs2"
    and l1: "list_all2 (\<lambda>item r. transform_item item (min_value a) = Inr (Some r)) items1 recs1"
    and l2: "list_all2 (\<lambda>item r. transform_item item (min_value a) = Inr (Some r)) items2 recs2"
    by (auto simp: list_all2_append1)
  from l1 l2 have t1: "transform_and_filter items1 (min_value a) = Inr recs1"
    and t2: "transform_and_filter items2 (min_value a) = Inr recs2"
    by (simp_all add: transform_and_filter_all2)
  from h have ne: "items1 \<noteq> []" "items2 \<noteq> []" by auto
  from h t1 ne have p1: "\<And>rs. fetch_page a (Some r1) rs = Continue (rs @ recs1)"
    by (simp add: fetch_page_envelope)
  from h t2 ne have p2: "\<And>rs. fetch_page a (Some r2) rs = Break (rs @ recs2)"
    by (simp add: fetch_page_envelope)
  from h have pages: "[1..max_pages a] = 1 # 2 # [3..max_pages a]"
    by (simp add: upto.simps[of 1] upto.simps[of 2])
  from h l1 l2 have "length recs = 140"
    by (auto simp: recs dest: list_all2_lengthD)
  with h p1 p2 show "fetch_usdt_transfers http a =
         (Inr recs, [HttpGet (params a 1), Sleep (sleep_secs a), HttpGet (params a 2)]) \<and>
       length recs = 140"
    by (simp add: fetch_usdt_transfers_def pages recs)
qed

theorem two_pages_in_order_witness:
  "fetch_usdt_transfers
     (serve [ok_page (replicate 100 sample_item), ok_page (replicate 40 sample_item)])
     (sample_args 100 5 None) =
     (Inr (replicate 140 sample_record),
      [HttpGet (params (sample_args 100 5 None) 1), Sleep (sleep_secs (sample_args 100 5 None)),
       HttpGet (params (sample_args 100 5 None) 2)])"
proof -
  let ?a = "sample_args 100 5 None"
  let ?net = "serve [ok_page (replicate 100 sample_item), ok_page (replicate 40 sample_item)]"
  have env: "\<And>items. envelope (ok_page items) =
      Some [(''status'', JStr ''1''), (''message'', JStr ''OK''), (''result'', JList items)]"
    by (simp add: ok_page_def)
  have all: "list_all2 (\<lambda>item r. transform_item item (min_value ?a) = Inr (Some r))
      (replicate 100 sample_item @ replicate 40 sample_item) (replicate 140 sample_record)"
    using list_all2_replicate[of "\<lambda>item r. transform_item item None = Inr (Some r)"
        sample_item sample_record 140]
    by (simp add: transform_sample flip: replicate_add)
  from two_pages_in_order[of ?a ?net "ok_page (replicate 100 sample_item)"
      "[(''status'', JStr ''1''), (''message'', JStr ''OK''), (''result'', JList (replicate 100 sample_item))]"
      "replicate 100 sample_item" "ok_page (replicate 40 sample_item)"
      "[(''status'', JStr ''1''), (''message'', JStr ''OK''), (''result'', JList (replicate 40 sample_item))]"
      "replicate 40 sample_item" "replicate 140 sample_record"] all
  show ?thesis
    by (simp add: env field_def status_ok_def)
qed

section \<open>C7: the report exporter\<close>

text \<open>
  C7: the exporter raises on the empty list (a \<^verbatim>\<open>ValueError\<close>, the error the
  specification calls \<^verbatim>\<open>EmptyExportError\<close>); on a non-empty list it returns the bytes of
  a workbook with the one sheet \<^verbatim>\<open>USDT_Transfers\<close>, whose columns are, in this order,
  time, sender, receiver, amount, fee and transaction hash, with one row per record.
\<close>

theorem report_columns_in_fixed_order:
  "generate_excel_report to_bytes [] = Inl ValueError \<and>
   generate_excel_report to_bytes (r # rs) =
     Inr (to_bytes
       [\<lparr>sheet_name = ''USDT_Transfers'',
         header = [label_time, label_from, label_to, label_amount, label_fee, label_hash],
         body = map sheet_row (r # rs)\<rparr>])"
  by (simp add: generate_excel_report_def rename_def DataFrame_def select_columns_def
      label_time_def label_from_def label_to_def label_amount_def label_fee_def label_hash_def
      ascii_def comp_def sheet_row_def[abs_def])

theorem report_columns_in_fixed_order_witness:
  "generate_excel_report length [] = Inl ValueError \<and>
   generate_excel_report length [sample_record] = Inr 1 \<and>
   sheet_row sample_record =
     [CText ''2023-11-14T22:13:20+00:00'', CJson (JStr ''0xaa''), CJson (JStr ''0xbb''),
      CNum (3 / 2), CNum (1936908127739503 / 4611686018427387904), CJson (JStr ''0xcc'')]"
  using report_columns_in_fixed_order[of length sample_record "[]"]
  by (simp add: sheet_row_def sample_record_def)

section \<open>C8: the sleep between pages\<close>

text \<open>
  C8, as stated: no sleep after the final allowed page.  It sleeps: with \<^verbatim>\<open>max_pages = 1\<close>
  and a full first page the run is one request followed by one sleep.
\<close>

theorem sleep_after_last_page_counterexample:
  "max_pages (sample_args 1 1 None) = 1 \<and>
   snd (fetch_usdt_transfers (serve [ok_page [sample_item]]) (sample_args 1 1 None)) =
     [HttpGet (params (sample_args 1 1 None) 1), Sleep (sleep_secs (sample_args 1 1 None))] \<and>
   sleeps (snd (fetch_usdt_transfers (serve [ok_page [sample_item]]) (sample_args 1 1 None))) = 1"
  by (simp add: fetch_usdt_transfers_def one_sample_page upto_1_1 sleeps_def)

text \<open>
  C8, amended: the function sleeps once after every full page, a page on which the
  body of the loop neither raises nor leaves the loop, and after no other page; the
  page \<^verbatim>\<open>max_pages\<close> is no exception, so when every page is full the run ends with a
  sleep.
\<close>

theorem sleep_after_every_full_page:
  "snd (fetch_usdt_transfers http a) =
     concat (map (page_events http a) (http_calls (snd (fetch_usdt_transfers http a)))) \<and>
   ((\<forall>j\<in>{1..max_pages a}. full_page a (http (params a j))) \<longrightarrow>
      snd (fetch_usdt_transfers http a) =
        concat (map (\<lambda>p. [HttpGet (params a p), Sleep (sleep_secs a)]) [1..max_pages a]))"
  using trace_page_events[of http a "[1..max_pages a]" "[]"] trace_all_full[of a http]
  by (simp add: fetch_usdt_transfers_def)

theorem sleep_after_every_full_page_witness:
  "full_page (sample_args 1 2 None) (Some (ok_page [sample_item])) \<and>
   snd (fetch_usdt_transfers (serve [ok_page [sample_item], ok_page [sample_item]])
          (sample_args 1 2 None)) =
     [HttpGet (params (sample_args 1 2 None) 1), Sleep (sleep_secs (sample_args 1 2 None)),
      HttpGet (params (sample_args 1 2 None) 2), Sleep (sleep_secs (sample_args 1 2 None))]"
proof -
  let ?a = "sample_args 1 2 None"
  let ?net = "serve [ok_page [sample_item], ok_page [sample_item]]"
  have f1: "full_page ?a (Some (ok_page [sample_item]))"
    by (simp add: full_page_def one_sample_page)
  have all: "\<forall>j\<in>{1..max_pages ?a}. full_page ?a (?net (params ?a j))"
  proof
    fix j :: int assume "j \<in> {1..max_pages ?a}"
    then have "j = 1 \<or> j = 2" by auto
    with f1 show "full_page ?a (?net (params ?a j))" by auto
  qed
  from sleep_after_every_full_page[of ?net ?a] all
  have "snd (fetch_usdt_transfers ?net ?a) =
      concat (map (\<lambda>p. [HttpGet (params ?a p), Sleep (sleep_secs ?a)]) [1..max_pages ?a])"
    by blast
  with f1 show ?thesis by (simp add: upto_1_2)
qed

section \<open>C9: absent fields and throwing\<close>

text \<open>
  C9, as stated: only a present field holding a string that is not a decimal integer
  makes the normalizer throw.  It also throws on the item below, whose two numeric
  fields hold the decimal integers \<^verbatim>\<open>"1"\<close> and \<^verbatim>\<open>"253402300800"\<close>: the timestamp is the
  first second of the year 10000, which the date library rejects.
\<close>

theorem normalizer_throws_on_decimal_strings_counterexample:
  "far_future_item = JObj [(''value'', JStr ''1''), (''timeStamp'', JStr ''253402300800'')] \<and>
   py_int (JStr ''1'') = Inr 1 \<and>
   py_int (JStr ''253402300800'') = Inr 253402300800 \<and>
   transform_item far_future_item None = Inl TimestampError"
  by (simp add: far_future_item_def transform_item_def USDT_DECIMALS_def int_one int_zero
      int_far_future truediv_one truediv_zero iso_far_future)

text \<open>
  C9, amended: for a raw item that is a JSON object, an absent numeric field is read
  as \<^verbatim>\<open>"0"\<close>: an item without any of the four fields normalizes to amount 0.0, fee 0.0
  and the epoch timestamp \<^verbatim>\<open>1970-01-01T00:00:00+00:00\<close>; in any record the normalizer
  yields, a missing \<^verbatim>\<open>value\<close> gives amount 0.0, a missing \<^verbatim>\<open>gasPrice\<close> or \<^verbatim>\<open>gasUsed\<close> gives
  fee 0.0 and a missing \<^verbatim>\<open>timeStamp\<close> gives the epoch timestamp.  The normalizer throws
  only when one of the four fields is present with a value \<^verbatim>\<open>int\<close> rejects, when the
  amount or the fee is too large for a float, or when the timestamp is outside the
  years 1 to 9999.
\<close>

theorem absent_fields_read_as_zero:
  "(map_of kvs ''value'' = None \<and> map_of kvs ''gasPrice'' = None \<and>
    map_of kvs ''gasUsed'' = None \<and> map_of kvs ''timeStamp'' = None \<longrightarrow>
      transform_item (JObj kvs) None =
        Inr (Some \<lparr>rec_from = field kvs ''from'', rec_to = field kvs ''to'', amount_usdt = 0,
                   tx_hash = field kvs ''hash'', timestamp = ''1970-01-01T00:00:00+00:00'',
                   fee_eth = 0\<rparr>)) \<and>
   (transform_item (JObj kvs) mv = Inr (Some r) \<longrightarrow>
      (map_of kvs ''value'' = None \<longrightarrow> amount_usdt r = 0) \<and>
      (map_of kvs ''gasPrice'' = None \<or> map_of kvs ''gasUsed'' = None \<longrightarrow> fee_eth r = 0) \<and>
      (map_of kvs ''timeStamp'' = None \<longrightarrow> timestamp r = ''1970-01-01T00:00:00+00:00'')) \<and>
   (transform_item (JObj kvs) mv = Inl e \<longrightarrow>
      (\<exists>k\<in>{''value'', ''gasPrice'', ''gasUsed'', ''timeStamp''}. \<exists>x.
          map_of kvs k = Some x \<and> py_int x = Inl e) \<or>
      (e = OverflowError \<and>
         ((\<exists>v. int_field (JObj kvs) ''value'' = Inr v \<and>
               truediv v (10 ^ 6) = Inl OverflowError) \<or>
          (\<exists>gp gu. int_field (JObj kvs) ''gasPrice'' = Inr gp \<and>
               int_field (JObj kvs) ''gasUsed'' = Inr gu \<and>
               truediv (gp * gu) (10 ^ 18) = Inl OverflowError))) \<or>
      (e = TimestampError \<and>
         (\<exists>ts. int_field (JObj kvs) ''timeStamp'' = Inr ts \<and>
               (ts < - 62135596800 \<or> 253402300799 < ts))))"
  by (intro conjI) (rule absent_all_zero, rule absent_each_zero, rule transform_item_throws_imp)

theorem absent_fields_read_as_zero_witness:
  "transform_item (JObj [(''from'', JStr ''0xaa'')]) None =
     Inr (Some \<lparr>rec_from = JStr ''0xaa'', rec_to = JNull, amount_usdt = 0, tx_hash = JNull,
                timestamp = ''1970-01-01T00:00:00+00:00'', fee_eth = 0\<rparr>) \<and>
   transform_item (JObj [(''value'', JNull)]) None = Inl TypeError \<and>
   py_int JNull = Inl TypeError"
proof -
  from absent_fields_read_as_zero[of "[(''from'', JStr ''0xaa'')]"]
  have "transform_item (JObj [(''from'', JStr ''0xaa'')]) None =
     Inr (Some \<lparr>rec_from = JStr ''0xaa'', rec_to = JNull, amount_usdt = 0, tx_hash = JNull,
                timestamp = ''1970-01-01T00:00:00+00:00'', fee_eth = 0\<rparr>)"
    by (simp add: field_def)
  then show ?thesis
    by (simp add: transform_item_def)
qed

section \<open>C10: the chain id\<close>

text \<open>
  C10: \<^verbatim>\<open>get_chain_id\<close> raises only its \<open>EtherscanError\<close>, and only when the secrets
  store gives no chain id and the environment variable holds a non-empty string that
  is not an integer.  A value in the secrets store that \<^verbatim>\<open>int\<close> rejects is ignored: the
  result is the one without a secrets store, that is the integer of the environment
  variable, the error when that is not an integer, or the default 1 when the variable
  is unset or empty.
\<close>

theorem chain_id_error_only_from_environment:
  "(get_chain_id store getenv = Inl e \<longrightarrow>
      e = EtherscanError ''ETHERSCAN_CHAIN_ID must be an integer.'' \<and>
      secrets_chain_id store = None \<and>
      (\<exists>v. getenv ''ETHERSCAN_CHAIN_ID'' = Some v \<and> v \<noteq> [] \<and> py_int_str v = Inl ValueError)) \<and>
   (bad_secret store \<longrightarrow> get_chain_id store getenv = get_chain_id None getenv) \<and>
   (getenv ''ETHERSCAN_CHAIN_ID'' = None \<or> getenv ''ETHERSCAN_CHAIN_ID'' = Some [] \<longrightarrow>
      get_chain_id None getenv = Inr 1) \<and>
   (getenv ''ETHERSCAN_CHAIN_ID'' = Some v \<and> v \<noteq> [] \<longrightarrow>
      get_chain_id None getenv =
        (case py_int_str v of
           Inr n \<Rightarrow> Inr n
         | Inl x \<Rightarrow> Inl (EtherscanError ''ETHERSCAN_CHAIN_ID must be an integer.'')))"
  by (intro conjI)
    (rule get_chain_id_error, rule bad_secret_ignored, rule chain_id_default,
     rule chain_id_from_environment)

theorem chain_id_error_only_from_environment_witness:
  "bad_secret named_secret \<and>
   get_chain_id named_secret (env_with ''5'') = Inr 5 \<and>
   get_chain_id named_secret no_env = Inr 1 \<and>
   get_chain_id named_secret (env_with ''five'') =
     Inl (EtherscanError ''ETHERSCAN_CHAIN_ID must be an integer.'')"
proof -
  have bad: "bad_secret named_secret"
    by (simp add: bad_secret_def named_secret_def int_mainnet)
  have e5: "env_with ''5'' ''ETHERSCAN_CHAIN_ID'' = Some ''5'' \<and> ''5'' \<noteq> []"
    by (simp add: env_with_def)
  have e0: "no_env ''ETHERSCAN_CHAIN_ID'' = None \<or> no_env ''ETHERSCAN_CHAIN_ID'' = Some []"
    by (simp add: no_env_def)
  have ew: "env_with ''five'' ''ETHERSCAN_CHAIN_ID'' = Some ''five'' \<and> ''five'' \<noteq> []"
    by (simp add: env_with_def)
  note t5 = chain_id_error_only_from_environment[of named_secret "env_with ''5''" ValueError "''5''"]
  note t0 = chain_id_error_only_from_environment[of named_secret no_env ValueError "[]"]
  note tw = chain_id_error_only_from_environment[of named_secret "env_with ''five''" ValueError "''five''"]
  from t5 bad e5 have "get_chain_id named_secret (env_with ''5'') =
      (case py_int_str ''5'' of Inr n \<Rightarrow> Inr n
       | Inl x \<Rightarrow> Inl (EtherscanError ''ETHERSCAN_CHAIN_ID must be an integer.''))"
    by metis
  then have a: "get_chain_id named_secret (env_with ''5'') = Inr 5"
    by (simp add: int_five)
  from t0 bad e0 have b: "get_chain_id named_secret no_env = Inr 1"
    by metis
  from tw bad ew have "get_chain_id named_secret (env_with ''five'') =
      (case py_int_str ''five'' of Inr n \<Rightarrow> Inr n
       | Inl x \<Rightarrow> Inl (EtherscanError ''ETHERSCAN_CHAIN_ID must be an integer.''))"
    by metis
  then have c: "get_chain_id named_secret (env_with ''five'') =
     Inl (EtherscanError ''ETHERSCAN_CHAIN_ID must be an integer.'')"
    by (simp add: int_word)
  from bad a b c show ?thesis by blast
qed

end
